theory Spec2Isabelle
  imports Complex_Main
begin

section \<open>Python values, exceptions and the outside world\<close>

text \<open>
  Both scripts decode a JSON document with \<^verbatim>\<open>response.json()\<close> and then work on the
  decoded Python object. \<open>pyval\<close> is that object: \<open>PNone\<close> for \<^verbatim>\<open>null\<close>, \<open>PInt\<close>
  for an integer literal (Python integers are unbounded), \<open>PFloat\<close> for a number written with
  a fraction or an exponent and for \<^verbatim>\<open>NaN\<close> and \<^verbatim>\<open>Infinity\<close>, which the decoder accepts,
  \<open>PDict\<close> for an object (the pairs of the decoded dict, looked up with \<open>map_of\<close>).
  A Python float is a double: a finite value (a rational number), minus zero, an infinity or
  not a number.
\<close>

datatype pyfloat = Finite rat | NegZero | PosInf | NegInf | NaN

datatype pyval =
    PNone
  | PBool bool
  | PInt int
  | PFloat pyfloat
  | PStr string
  | PList "pyval list"
  | PDict "(string \<times> pyval) list"

text \<open>
  The exception classes. \<open>ConnectionError\<close>, \<open>HTTPError\<close> (raised by
  \<^verbatim>\<open>raise_for_status\<close>) and \<open>JSONDecodeError\<close> (raised by \<^verbatim>\<open>response.json()\<close> of requests 2.27
  and later on a body that is not JSON) stand for the subclasses of
  \<^verbatim>\<open>requests.RequestException\<close>; the next five are Python built-ins; \<open>Other name\<close> is any
  other class that is not a \<^verbatim>\<open>RequestException\<close>, such as urllib3's \<^verbatim>\<open>LocationParseError\<close>,
  which \<^verbatim>\<open>requests.post\<close> lets through, or \<^verbatim>\<open>RecursionError\<close>.
\<close>

datatype exn =
    ConnectionError
  | HTTPError
  | JSONDecodeError
  | KeyError string
  | TypeError
  | AttributeError
  | ValueError
  | OverflowError
  | Other string

fun is_RequestException :: "exn \<Rightarrow> bool" where
  "is_RequestException ConnectionError = True"
| "is_RequestException HTTPError = True"
| "is_RequestException JSONDecodeError = True"
| "is_RequestException _ = False"

text \<open>
  The result of running a piece of Python: it returns a value, it raises, or it never comes
  back (a request without timeout to a peer that never answers).
\<close>

datatype 'a result = Return 'a | Raise exn | Blocked

text \<open>
  A statement of the script is a function from the process state to a result and the
  state it leaves behind; the state is kept when an exception is raised, as the globals
  and the calls already made are in Python.
\<close>

type_synonym ('a, 's) prog = "'s \<Rightarrow> 'a result \<times> 's"

definition py_return :: "'a \<Rightarrow> ('a, 's) prog" where
  "py_return v = (\<lambda>s. (Return v, s))"

definition lift_result :: "'a result \<Rightarrow> ('a, 's) prog" where
  "lift_result r = (\<lambda>s. (r, s))"

definition and_then :: "('a, 's) prog \<Rightarrow> ('a \<Rightarrow> ('b, 's) prog) \<Rightarrow> ('b, 's) prog" where
  "and_then p f = (\<lambda>s. case p s of
       (Return v, s') \<Rightarrow> f v s'
     | (Raise e, s') \<Rightarrow> (Raise e, s')
     | (Blocked, s') \<Rightarrow> (Blocked, s'))"

text \<open>
  \<^verbatim>\<open>try: p  except requests.RequestException as e: log; return d\<close>
\<close>

definition except_RequestException :: "('a, 's) prog \<Rightarrow> 'a \<Rightarrow> ('a, 's) prog" where
  "except_RequestException p d = (\<lambda>s. case p s of
       (Raise e, s') \<Rightarrow> if is_RequestException e then (Return d, s') else (Raise e, s')
     | (r, s') \<Rightarrow> (r, s'))"

text \<open>\<^verbatim>\<open>d[k]\<close> on a dict whose lookup of \<open>k\<close> gave \<open>v\<close>: a missing key raises KeyError.\<close>

definition subscript :: "string \<Rightarrow> 'a option \<Rightarrow> 'a result" where
  "subscript k v = (case v of None \<Rightarrow> Raise (KeyError k) | Some x \<Rightarrow> Return x)"

text \<open>Operations on a decoded body: \<^verbatim>\<open>obj.get(k)\<close>, \<^verbatim>\<open>k in obj\<close> and \<^verbatim>\<open>obj[k]\<close>.\<close>

fun py_get :: "pyval \<Rightarrow> string \<Rightarrow> pyval result" where
  "py_get (PDict kvs) k = Return (case map_of kvs k of None \<Rightarrow> PNone | Some v \<Rightarrow> v)"
| "py_get _ k = Raise AttributeError"

fun is_substring :: "string \<Rightarrow> string \<Rightarrow> bool" where
  "is_substring xs [] = (xs = [])"
| "is_substring xs (y # ys) = (take (length xs) (y # ys) = xs \<or> is_substring xs ys)"

fun py_in :: "string \<Rightarrow> pyval \<Rightarrow> bool result" where
  "py_in k (PDict kvs) = Return (map_of kvs k \<noteq> None)"
| "py_in k (PList xs) = Return (PStr k \<in> set xs)"
| "py_in k (PStr s) = Return (is_substring k s)"
| "py_in k _ = Raise TypeError"

fun py_getitem :: "pyval \<Rightarrow> string \<Rightarrow> pyval result" where
  "py_getitem (PDict kvs) k = subscript k (map_of kvs k)"
| "py_getitem _ k = Raise TypeError"

text \<open>
  The network and the requests library are not part of the program. A \<open>network\<close> says what
  one call of \<^verbatim>\<open>requests.post\<close> or \<^verbatim>\<open>requests.get\<close> meets: the call raises an exception
  (a \<^verbatim>\<open>RequestException\<close> for a refused connection, a timeout of the peer or too many
  redirects; another class for a URL that urllib3 cannot parse), it returns a response, or
  it never returns. A response has its status code and what \<^verbatim>\<open>response.json()\<close> does on its
  body: it returns the decoded value or raises (\<open>JSONDecodeError\<close> on a body that is not
  JSON; \<^verbatim>\<open>RecursionError\<close> on a deeply nested one and \<^verbatim>\<open>ValueError\<close> on an integer of more
  than 4300 digits are not \<^verbatim>\<open>RequestException\<close>s). The process state records every call
  made, in order.
\<close>

datatype request = POST string | GET string

record response =
  status_code :: nat
  decoded :: "exn + pyval"

datatype reply = Raises exn | Answers response | Silent

type_synonym network = "request \<Rightarrow> reply"

record io =
  requests :: "request list"

definition send :: "network \<Rightarrow> request \<Rightarrow> (response, 'a io_scheme) prog" where
  "send net rq = (\<lambda>s.
     (case net rq of Raises e \<Rightarrow> Raise e | Answers r \<Rightarrow> Return r | Silent \<Rightarrow> Blocked,
      s\<lparr>requests := requests s @ [rq]\<rparr>))"

definition requests_post :: "network \<Rightarrow> string \<Rightarrow> (response, 'a io_scheme) prog" where
  "requests_post net url = send net (POST url)"

definition requests_get :: "network \<Rightarrow> string \<Rightarrow> (response, 'a io_scheme) prog" where
  "requests_get net url = send net (GET url)"

definition raise_for_status :: "response \<Rightarrow> unit result" where
  "raise_for_status r =
     (if 400 \<le> status_code r \<and> status_code r < 600 then Raise HTTPError else Return ())"

definition response_json :: "response \<Rightarrow> pyval result" where
  "response_json r = (case decoded r of Inl e \<Rightarrow> Raise e | Inr v \<Rightarrow> Return v)"

text \<open>
  The configuration is the dict read from the JSON file: a key may be missing, and
  \<^verbatim>\<open>config["hosts"]\<close> then raises KeyError. A host entry is a dict from keys to strings.
  \<^verbatim>\<open>for host in hosts: body\<close> runs the body on each entry in order and stops at the first
  exception; \<open>i\<close> is the position of the entry, which selects what the network answers.
\<close>

type_synonym host = "string \<rightharpoonup> string"

record config =
  reference_endpoint :: "string option"
  hosts :: "host list option"

fun for_hosts :: "(nat \<Rightarrow> host \<Rightarrow> (unit, 's) prog) \<Rightarrow> nat \<Rightarrow> host list \<Rightarrow> (unit, 's) prog" where
  "for_hosts body i [] = py_return ()"
| "for_hosts body i (h # hs) = and_then (body i h) (\<lambda>_. for_hosts body (Suc i) hs)"

section \<open>The heartbeat script (betterstack/solana/hearbeat.py)\<close>

definition send_heartbeat :: "network \<Rightarrow> string \<Rightarrow> (unit, 'a io_scheme) prog" where
  "send_heartbeat net url =
     except_RequestException
       (and_then (requests_get net url) (\<lambda>response.
        lift_result (raise_for_status response)))
       ()"

definition check_rpc_call :: "network \<Rightarrow> host \<Rightarrow> (bool, 'a io_scheme) prog" where
  "check_rpc_call net host =
     and_then (lift_result (subscript ''rpc_url'' (host ''rpc_url''))) (\<lambda>url.
     except_RequestException
       (and_then (requests_post net url) (\<lambda>response.
        and_then (lift_result (raise_for_status response)) (\<lambda>_.
        and_then (lift_result (response_json response)) (\<lambda>result.
        and_then (lift_result (py_in ''error'' result)) (\<lambda>has_error.
          if has_error then
            and_then (lift_result (py_getitem result ''error'')) (\<lambda>_.
            py_return False)
          else
            and_then (lift_result (subscript ''host'' (host ''host''))) (\<lambda>_.
            and_then (lift_result (py_get result ''result'')) (\<lambda>_.
            py_return True)))))))
       False)"

definition job_body :: "network \<Rightarrow> host \<Rightarrow> (unit, 'a io_scheme) prog" where
  "job_body net host =
     and_then (check_rpc_call net host) (\<lambda>healthy.
       if healthy then
         and_then (lift_result (subscript ''heartbeat_endpoint'' (host ''heartbeat_endpoint'')))
           (\<lambda>url. send_heartbeat net url)
       else py_return ())"

definition job :: "config \<Rightarrow> (nat \<Rightarrow> network) \<Rightarrow> (unit, 'a io_scheme) prog" where
  "job config net =
     and_then (lift_result (subscript ''hosts'' (hosts config))) (\<lambda>hs.
     for_hosts (\<lambda>i host. job_body (net i) host) 0 hs)"

section \<open>The exporter (prometheus_exporters/solana/exporter.py)\<close>

text \<open>
  \<^verbatim>\<open>float(i)\<close> on a Python integer is the double nearest to \<open>i\<close>, ties going to the even
  mantissa of 53 bits, and OverflowError when that would be \<open>2 ^ 1024\<close> or more.
  \<open>excess_bits a\<close> is the number of bits of \<open>a\<close> beyond 53.
\<close>

fun excess_bits :: "nat \<Rightarrow> nat" where
  "excess_bits a = (if a < 2 ^ 53 then 0 else Suc (excess_bits (a div 2)))"

declare excess_bits.simps [simp del]

definition round_half_even :: "nat \<Rightarrow> nat \<Rightarrow> nat" where
  "round_half_even a sh =
     (let q = a div 2 ^ sh; r = a mod 2 ^ sh
      in (if 2 * r > 2 ^ sh \<or> (2 * r = 2 ^ sh \<and> odd q) then q + 1 else q) * 2 ^ sh)"

definition nearest_double :: "int \<Rightarrow> int" where
  "nearest_double i =
     (let a = nat \<bar>i\<bar>; x = int (round_half_even a (excess_bits a))
      in if i < 0 then - x else x)"

definition float_of_int :: "int \<Rightarrow> pyfloat result" where
  "float_of_int i =
     (let x = nearest_double i
      in if 2 ^ 1024 \<le> \<bar>x\<bar> then Raise OverflowError else Return (Finite (of_int x)))"

text \<open>
  Two operations of Python are taken as they are, whatever they compute: \<^verbatim>\<open>float(s)\<close> on a
  string (\<open>None\<close> when it raises ValueError) and the subtraction of two floats, which never
  raises. Every definition and theorem of the exporter holds for each choice of them.
\<close>

record python =
  float_of_str :: "string \<Rightarrow> pyfloat option"
  float_sub :: "pyfloat \<Rightarrow> pyfloat \<Rightarrow> pyfloat"

text \<open>
  The Python integers among the decoded values (\<^verbatim>\<open>bool\<close> is a subclass of \<^verbatim>\<open>int\<close>),
  \<^verbatim>\<open>float(value)\<close> as \<^verbatim>\<open>Gauge.set\<close> applies it to its argument, and \<^verbatim>\<open>a - b\<close>: exact on
  two integers; when one side is a float the other is converted to a float, which raises
  OverflowError for an integer that is too large; TypeError for every other operand.
\<close>

fun as_int :: "pyval \<Rightarrow> int option" where
  "as_int (PInt i) = Some i"
| "as_int (PBool b) = Some (if b then 1 else 0)"
| "as_int _ = None"

fun py_float :: "python \<Rightarrow> pyval \<Rightarrow> pyfloat result" where
  "py_float py (PInt i) = float_of_int i"
| "py_float py (PBool b) = Return (Finite (if b then 1 else 0))"
| "py_float py (PFloat x) = Return x"
| "py_float py (PStr s) =
     (case float_of_str py s of None \<Rightarrow> Raise ValueError | Some x \<Rightarrow> Return x)"
| "py_float py _ = Raise TypeError"

fun as_float :: "pyval \<Rightarrow> pyfloat result" where
  "as_float (PFloat x) = Return x"
| "as_float (PInt i) = float_of_int i"
| "as_float (PBool b) = Return (Finite (if b then 1 else 0))"
| "as_float _ = Raise TypeError"

definition py_sub :: "python \<Rightarrow> pyval \<Rightarrow> pyval \<Rightarrow> pyval result" where
  "py_sub py a b =
     (case (as_int a, as_int b) of
        (Some x, Some y) \<Rightarrow> Return (PInt (x - y))
      | _ \<Rightarrow>
          (case (as_float a, as_float b) of
             (Return x, Return y) \<Rightarrow> Return (PFloat (float_sub py x y))
           | (Raise TypeError, _) \<Rightarrow> Raise TypeError
           | (_, Raise TypeError) \<Rightarrow> Raise TypeError
           | _ \<Rightarrow> Raise OverflowError))"

text \<open>
  The five module-level metrics. A labelled gauge has one child per label value, created
  (at 0) by the first \<^verbatim>\<open>labels(host=...)\<close> call for it; an unlabelled gauge starts at 0.
  A gauge holds the float last given to \<^verbatim>\<open>set\<close>. The two error counts are gauges that the
  script only ever increments by 1 from 0; they are kept as integers, which is what the
  float holds up to \<open>2 ^ 53\<close>.
\<close>

record exporter = io +
  NODE_SLOT_NUMBER :: "string \<rightharpoonup> pyfloat"
  REFERENCE_SLOT_NUMBER :: pyfloat
  SLOT_DIFFERENCE :: "string \<rightharpoonup> pyfloat"
  NODE_SLOT_NUMBER_ERROR_COUNT :: "string \<rightharpoonup> int"
  REFERENCE_SLOT_NUMBER_ERROR_COUNT :: int

definition labels :: "'v \<Rightarrow> (string \<rightharpoonup> 'v) \<Rightarrow> string \<Rightarrow> (string \<rightharpoonup> 'v)" where
  "labels zero g l = (case g l of None \<Rightarrow> g(l \<mapsto> zero) | Some _ \<Rightarrow> g)"

definition labels_set ::
  "python \<Rightarrow> string \<Rightarrow> pyval \<Rightarrow> (string \<rightharpoonup> pyfloat) \<Rightarrow> unit result \<times> (string \<rightharpoonup> pyfloat)" where
  "labels_set py l v g =
     (case py_float py v of
        Return x \<Rightarrow> (Return (), (labels (Finite 0) g l)(l \<mapsto> x))
      | Raise e \<Rightarrow> (Raise e, labels (Finite 0) g l)
      | Blocked \<Rightarrow> (Blocked, labels (Finite 0) g l))"

definition labels_inc :: "string \<Rightarrow> (string \<rightharpoonup> int) \<Rightarrow> (string \<rightharpoonup> int)" where
  "labels_inc l g = (labels 0 g l)(l \<mapsto> (case labels 0 g l l of None \<Rightarrow> 0 | Some x \<Rightarrow> x) + 1)"

definition NODE_SLOT_NUMBER_set :: "python \<Rightarrow> string \<Rightarrow> pyval \<Rightarrow> (unit, exporter) prog" where
  "NODE_SLOT_NUMBER_set py l v = (\<lambda>s.
     case labels_set py l v (NODE_SLOT_NUMBER s) of (r, g) \<Rightarrow> (r, s\<lparr>NODE_SLOT_NUMBER := g\<rparr>))"

definition SLOT_DIFFERENCE_set :: "python \<Rightarrow> string \<Rightarrow> pyval \<Rightarrow> (unit, exporter) prog" where
  "SLOT_DIFFERENCE_set py l v = (\<lambda>s.
     case labels_set py l v (SLOT_DIFFERENCE s) of (r, g) \<Rightarrow> (r, s\<lparr>SLOT_DIFFERENCE := g\<rparr>))"

definition NODE_SLOT_NUMBER_ERROR_COUNT_inc :: "string \<Rightarrow> (unit, exporter) prog" where
  "NODE_SLOT_NUMBER_ERROR_COUNT_inc l = (\<lambda>s.
     (Return (), s\<lparr>NODE_SLOT_NUMBER_ERROR_COUNT := labels_inc l (NODE_SLOT_NUMBER_ERROR_COUNT s)\<rparr>))"

definition REFERENCE_SLOT_NUMBER_set :: "python \<Rightarrow> pyval \<Rightarrow> (unit, exporter) prog" where
  "REFERENCE_SLOT_NUMBER_set py v = (\<lambda>s.
     case py_float py v of
       Return x \<Rightarrow> (Return (), s\<lparr>REFERENCE_SLOT_NUMBER := x\<rparr>)
     | Raise e \<Rightarrow> (Raise e, s)
     | Blocked \<Rightarrow> (Blocked, s))"

definition REFERENCE_SLOT_NUMBER_ERROR_COUNT_inc :: "(unit, exporter) prog" where
  "REFERENCE_SLOT_NUMBER_ERROR_COUNT_inc = (\<lambda>s.
     (Return (), s\<lparr>REFERENCE_SLOT_NUMBER_ERROR_COUNT := REFERENCE_SLOT_NUMBER_ERROR_COUNT s + 1\<rparr>))"

definition get_slot_number :: "network \<Rightarrow> string \<Rightarrow> (pyval, 'a io_scheme) prog" where
  "get_slot_number net url =
     except_RequestException
       (and_then (requests_post net url) (\<lambda>response.
        and_then (lift_result (raise_for_status response)) (\<lambda>_.
        and_then (lift_result (response_json response)) (\<lambda>body.
        lift_result (py_get body ''result'')))))
       PNone"

text \<open>The body of the loop over the hosts, for one entry.\<close>

definition check_node :: "python \<Rightarrow> pyval \<Rightarrow> network \<Rightarrow> host \<Rightarrow> (unit, exporter) prog" where
  "check_node py reference_slot net host =
     and_then (lift_result (subscript ''rpc_url'' (host ''rpc_url''))) (\<lambda>node_url.
     and_then (get_slot_number net node_url) (\<lambda>node_slot.
       if node_slot \<noteq> PNone then
         and_then (lift_result (subscript ''host'' (host ''host''))) (\<lambda>label.
         and_then (NODE_SLOT_NUMBER_set py label node_slot) (\<lambda>_.
         and_then (lift_result (py_sub py reference_slot node_slot)) (\<lambda>slot_difference.
         SLOT_DIFFERENCE_set py label slot_difference)))
       else
         and_then (lift_result (subscript ''host'' (host ''host''))) (\<lambda>label.
         NODE_SLOT_NUMBER_ERROR_COUNT_inc label)))"

text \<open>
  One cycle: \<open>ref\<close> is what the request to the reference endpoint meets, \<open>net i\<close> what the
  request for the host at position \<open>i\<close> meets.
\<close>

definition check_node_slots ::
  "python \<Rightarrow> config \<Rightarrow> network \<Rightarrow> (nat \<Rightarrow> network) \<Rightarrow> (unit, exporter) prog" where
  "check_node_slots py config ref net =
     and_then (lift_result (subscript ''reference_endpoint'' (reference_endpoint config)))
       (\<lambda>reference_url.
     and_then (get_slot_number ref reference_url) (\<lambda>reference_slot.
       if reference_slot \<noteq> PNone then
         and_then (REFERENCE_SLOT_NUMBER_set py reference_slot) (\<lambda>_.
         and_then (lift_result (subscript ''hosts'' (hosts config))) (\<lambda>hs.
         for_hosts (\<lambda>i host. check_node py reference_slot (net i) host) 0 hs))
       else REFERENCE_SLOT_NUMBER_ERROR_COUNT_inc))"

definition exporter_job ::
  "python \<Rightarrow> config \<Rightarrow> network \<Rightarrow> (nat \<Rightarrow> network) \<Rightarrow> (unit, exporter) prog" where
  "exporter_job py config ref net = check_node_slots py config ref net"

section \<open>The scheduler loops\<close>

text \<open>
  \<^verbatim>\<open>while True: body\<close> never returns: it goes on forever, is left by an exception, or is
  stuck in a call that never returns. \<open>forever fuel body c\<close> runs at most \<open>fuel\<close>
  iterations, \<open>c\<close> counting them; \<open>Looping\<close> says that the loop is still running when the
  fuel is used up, \<open>Stopped e\<close> that exception \<open>e\<close> left it. In the heartbeat script the
  exception is uncaught and ends the process; in the exporter \<^verbatim>\<open>except Exception\<close> logs it
  and the script ends. \<^verbatim>\<open>time.sleep\<close> changes nothing that is modelled; \<open>due c\<close> says whether
  \<^verbatim>\<open>schedule.run_pending()\<close> finds the job due in iteration \<open>c\<close>.
\<close>

datatype loop_state = Looping | Stopped exn | Stuck

fun forever :: "nat \<Rightarrow> (nat \<Rightarrow> (unit, 's) prog) \<Rightarrow> nat \<Rightarrow> 's \<Rightarrow> loop_state \<times> 's" where
  "forever 0 body c s = (Looping, s)"
| "forever (Suc fuel) body c s =
     (case body c s of
        (Return _, s') \<Rightarrow> forever fuel body (Suc c) s'
      | (Raise e, s') \<Rightarrow> (Stopped e, s')
      | (Blocked, s') \<Rightarrow> (Stuck, s'))"

definition heartbeat_main ::
  "nat \<Rightarrow> config \<Rightarrow> (nat \<Rightarrow> nat \<Rightarrow> network) \<Rightarrow> 'a io_scheme \<Rightarrow> loop_state \<times> 'a io_scheme" where
  "heartbeat_main fuel config net s =
     (case job config (net 0) s of
        (Return _, s') \<Rightarrow> forever fuel (\<lambda>c. job config (net (Suc c))) 0 s'
      | (Raise e, s') \<Rightarrow> (Stopped e, s')
      | (Blocked, s') \<Rightarrow> (Stuck, s'))"

definition schedule_run_pending :: "bool \<Rightarrow> (unit, 's) prog \<Rightarrow> (unit, 's) prog" where
  "schedule_run_pending is_due scheduled = (if is_due then scheduled else py_return ())"

definition exporter_main ::
  "nat \<Rightarrow> python \<Rightarrow> config \<Rightarrow> (nat \<Rightarrow> bool) \<Rightarrow> (nat \<Rightarrow> network) \<Rightarrow> (nat \<Rightarrow> nat \<Rightarrow> network)
     \<Rightarrow> exporter \<Rightarrow> loop_state \<times> exporter" where
  "exporter_main fuel py config due ref net s =
     forever fuel (\<lambda>c. schedule_run_pending (due c) (exporter_job py config (ref c) (net c))) 0 s"

section \<open>Predicates used in the statements\<close>

text \<open>
  What a request may meet so that the handler of a probe deals with it: an exception that
  is a \<^verbatim>\<open>requests.RequestException\<close>, a response with an HTTP error status (400 to 599, the
  ones \<^verbatim>\<open>raise_for_status\<close> raises for), a response whose \<^verbatim>\<open>json()\<close> raises a
  \<^verbatim>\<open>RequestException\<close> (the body is not JSON), or a response whose body decodes to a JSON
  object. \<open>get_absorbed\<close> is the same for a heartbeat GET, whose body is never read.
\<close>

definition is_dict :: "pyval \<Rightarrow> bool" where
  "is_dict v = (case v of PDict _ \<Rightarrow> True | _ \<Rightarrow> False)"

definition object_or_absorbed :: "reply \<Rightarrow> bool" where
  "object_or_absorbed reply =
     (case reply of
        Raises e \<Rightarrow> is_RequestException e
      | Silent \<Rightarrow> False
      | Answers r \<Rightarrow> raise_for_status r = Raise HTTPError \<or>
          (case decoded r of Inl e \<Rightarrow> is_RequestException e | Inr body \<Rightarrow> is_dict body))"

definition get_absorbed :: "reply \<Rightarrow> bool" where
  "get_absorbed reply =
     (case reply of Raises e \<Rightarrow> is_RequestException e | Silent \<Rightarrow> False | Answers r \<Rightarrow> True)"

text \<open>
  \<open>slot_or_absorbed\<close> asks in addition that the \<^verbatim>\<open>result\<close> field of the object is missing,
  null or a number that \<^verbatim>\<open>float()\<close> and the subtraction accept: a boolean, a float, or an
  integer small enough for the difference of two of them to be converted to a double.
\<close>

definition is_slot :: "pyval \<Rightarrow> bool" where
  "is_slot v =
     (case v of
        PNone \<Rightarrow> True
      | PBool _ \<Rightarrow> True
      | PInt i \<Rightarrow> \<bar>i\<bar> < 2 ^ 1022
      | PFloat _ \<Rightarrow> True
      | _ \<Rightarrow> False)"

definition slot_or_absorbed :: "reply \<Rightarrow> bool" where
  "slot_or_absorbed reply =
     (case reply of
        Raises e \<Rightarrow> is_RequestException e
      | Silent \<Rightarrow> False
      | Answers r \<Rightarrow> raise_for_status r = Raise HTTPError \<or>
          (case decoded r of
             Inl e \<Rightarrow> is_RequestException e
           | Inr body \<Rightarrow> is_dict body \<and>
               (case py_get body ''result'' of Return v \<Rightarrow> is_slot v | _ \<Rightarrow> False)))"

text \<open>
  What one iteration of the heartbeat loop sends for a host that it reaches, given the
  verdict of the host's probe: the probe and one GET to the host's endpoint when the verdict
  is healthy; the probe alone when the verdict is healthy and the entry has no endpoint
  (the cycle then ends with KeyError), and when the probe gave any other outcome.
\<close>

definition heartbeat_rule :: "host \<Rightarrow> bool result \<Rightarrow> request list \<Rightarrow> bool" where
  "heartbeat_rule h verdict rs =
     (\<exists>url. h ''rpc_url'' = Some url \<and>
        (verdict = Return True \<and> (\<exists>ep. h ''heartbeat_endpoint'' = Some ep \<and> rs = [POST url, GET ep])
         \<or> verdict = Return True \<and> h ''heartbeat_endpoint'' = None \<and> rs = [POST url]
         \<or> verdict \<noteq> Return True \<and> rs = [POST url]))"

text \<open>
  No error counter of \<open>s\<close> is lower, or gone, in \<open>s'\<close>.
\<close>

definition counters_le :: "exporter \<Rightarrow> exporter \<Rightarrow> bool" where
  "counters_le s s' =
     (REFERENCE_SLOT_NUMBER_ERROR_COUNT s \<le> REFERENCE_SLOT_NUMBER_ERROR_COUNT s' \<and>
      (\<forall>l n. NODE_SLOT_NUMBER_ERROR_COUNT s l = Some n \<longrightarrow>
         (\<exists>n'. NODE_SLOT_NUMBER_ERROR_COUNT s' l = Some n' \<and> n \<le> n')))"

text \<open>
  What a cycle does to the child of one label of a gauge: nothing, \<^verbatim>\<open>labels()\<close> alone (the
  child is created at 0 unless it exists) or \<^verbatim>\<open>labels().set(v)\<close>; \<open>then_eff a b\<close> is \<open>a\<close>
  followed by \<open>b\<close>.
\<close>

datatype effect = Keep | Touch | Put pyfloat

fun eff :: "effect \<Rightarrow> pyfloat option \<Rightarrow> pyfloat option" where
  "eff Keep x = x"
| "eff Touch x = (case x of None \<Rightarrow> Some (Finite 0) | Some y \<Rightarrow> Some y)"
| "eff (Put v) x = Some v"

fun then_eff :: "effect \<Rightarrow> effect \<Rightarrow> effect" where
  "then_eff e Keep = e"
| "then_eff e (Put v) = Put v"
| "then_eff Keep Touch = Touch"
| "then_eff Touch Touch = Touch"
| "then_eff (Put v) Touch = Put v"

definition apply_effects :: "(string \<Rightarrow> effect) \<Rightarrow> (string \<rightharpoonup> pyfloat) \<Rightarrow> (string \<rightharpoonup> pyfloat)" where
  "apply_effects E m = (\<lambda>l. eff (E l) (m l))"

text \<open>
  The URLs probed (sent a POST) among a list of requests, the \<^verbatim>\<open>rpc_url\<close> of each configured
  host, and the probes of one exporter cycle: the reference endpoint, then the hosts unless
  the reference probe gave no value. \<open>idle\<close> is a process that has sent nothing yet.
\<close>

fun probed :: "request list \<Rightarrow> string list" where
  "probed [] = []"
| "probed (POST url # rs) = url # probed rs"
| "probed (GET url # rs) = probed rs"

definition rpc_urls :: "host list \<Rightarrow> string list" where
  "rpc_urls hs = map (\<lambda>h. the (h ''rpc_url'')) hs"

definition idle :: io where
  "idle = \<lparr>requests = []\<rparr>"

definition cycle_probes :: "network \<Rightarrow> string \<Rightarrow> host list \<Rightarrow> string list" where
  "cycle_probes ref reference_url hs =
     reference_url #
       (if fst (get_slot_number ref reference_url idle) = Return PNone then [] else rpc_urls hs)"

section \<open>Concrete configurations, replies and states\<close>

text \<open>
  Two complete host entries and one without \<^verbatim>\<open>heartbeat_endpoint\<close>. \<open>rpc_reply status v\<close>
  is a JSON-RPC response with the given status and \<^verbatim>\<open>result\<close>; then the replies of
  scenarios 3 and 4 of the specification, a JSON array, a 300 with an empty object, a 503
  with a body that is not JSON, a refused connection, a host name that urllib3 cannot parse
  (\<^verbatim>\<open>LocationParseError\<close> is not a \<^verbatim>\<open>RequestException\<close>), and a body nested too deeply
  for the decoder.
\<close>

definition answering :: "reply \<Rightarrow> network" where
  "answering r = (\<lambda>_. r)"

definition after_first :: "network \<Rightarrow> network \<Rightarrow> nat \<Rightarrow> nat \<Rightarrow> network" where
  "after_first n n' c i = (if c = 0 then n else n')"

definition host_a :: host where
  "host_a = [''host'' \<mapsto> ''a'', ''rpc_url'' \<mapsto> ''http://a:8899'',
             ''heartbeat_endpoint'' \<mapsto> ''http://beat/a'']"

definition host_b :: host where
  "host_b = [''host'' \<mapsto> ''b'', ''rpc_url'' \<mapsto> ''http://b:8899'',
             ''heartbeat_endpoint'' \<mapsto> ''http://beat/b'']"

definition host_c :: host where
  "host_c = [''host'' \<mapsto> ''c'', ''rpc_url'' \<mapsto> ''http://c:8899'']"

definition rpc_reply :: "nat \<Rightarrow> pyval \<Rightarrow> reply" where
  "rpc_reply status v = Answers \<lparr>status_code = status,
     decoded = Inr (PDict [(''jsonrpc'', PStr ''2.0''), (''result'', v), (''id'', PInt 1)])\<rparr>"

definition health_ok :: reply where
  "health_ok = rpc_reply 200 (PStr ''ok'')"

definition health_error :: reply where
  "health_error = Answers \<lparr>status_code = 200,
     decoded = Inr (PDict [(''error'', PDict [(''code'', PInt (- 1))])])\<rparr>"

definition array_body :: reply where
  "array_body = Answers \<lparr>status_code = 200, decoded = Inr (PList [])\<rparr>"

definition multiple_choices :: reply where
  "multiple_choices = Answers \<lparr>status_code = 300, decoded = Inr (PDict [])\<rparr>"

definition server_error :: reply where
  "server_error = Answers \<lparr>status_code = 503, decoded = Inl JSONDecodeError\<rparr>"

definition refused :: reply where
  "refused = Raises ConnectionError"

definition bad_host :: reply where
  "bad_host = Raises (Other ''LocationParseError'')"

definition deep_body :: reply where
  "deep_body = Answers \<lparr>status_code = 200, decoded = Inl (Other ''RecursionError'')\<rparr>"

definition slot_reply :: "pyval \<Rightarrow> reply" where
  "slot_reply v = rpc_reply 200 v"

definition no_result :: reply where
  "no_result = Answers \<lparr>status_code = 200,
     decoded = Inr (PDict [(''jsonrpc'', PStr ''2.0''), (''id'', PInt 1)])\<rparr>"

text \<open>
  Networks: one on which every probe is healthy and every heartbeat GET fails with
  \<^verbatim>\<open>LocationParseError\<close>, and networks that answer by the position of the host and by
  the iteration of the loop.
\<close>

definition beat_fails :: network where
  "beat_fails rq = (case rq of POST _ \<Rightarrow> health_ok | GET _ \<Rightarrow> bad_host)"

definition first_healthy :: "nat \<Rightarrow> network" where
  "first_healthy i = (if i = 0 then answering health_ok else answering health_error)"

definition behind_and_ahead :: "nat \<Rightarrow> network" where
  "behind_and_ahead i = answering (slot_reply (PInt (if i = 0 then 998 else 1003)))"

definition second_down :: "nat \<Rightarrow> network" where
  "second_down i = answering (if i = 0 then slot_reply (PInt 998) else refused)"

definition beyond_53_bits :: "nat \<Rightarrow> network" where
  "beyond_53_bits i = answering (slot_reply (PInt (if i = 0 then 9007199254740995 else 1)))"

definition flaky :: "nat \<Rightarrow> nat \<Rightarrow> network" where
  "flaky c i = answering
     (if i = 0 then refused
      else if c mod 3 = 0 then server_error
      else if c mod 3 = 1 then slot_reply (PInt 7)
      else slot_reply (PFloat (Finite (15 / 2))))"

definition reference_at :: "int \<Rightarrow> nat \<Rightarrow> network" where
  "reference_at r c = answering (slot_reply (PInt r))"

definition every_iteration :: "nat \<Rightarrow> bool" where
  "every_iteration c = True"

text \<open>
  Configurations, the exporter at process start and after some cycles.
\<close>

definition heartbeat_config :: "host list \<Rightarrow> config" where
  "heartbeat_config hs = \<lparr>reference_endpoint = None, hosts = Some hs\<rparr>"

definition exporter_config :: "host list \<Rightarrow> config" where
  "exporter_config hs = \<lparr>reference_endpoint = Some ''http://ref:8899'', hosts = Some hs\<rparr>"

definition fresh :: exporter where
  "fresh = \<lparr>requests = [], NODE_SLOT_NUMBER = Map.empty, REFERENCE_SLOT_NUMBER = Finite 0,
     SLOT_DIFFERENCE = Map.empty, NODE_SLOT_NUMBER_ERROR_COUNT = Map.empty,
     REFERENCE_SLOT_NUMBER_ERROR_COUNT = 0\<rparr>"

definition counted :: exporter where
  "counted = fresh\<lparr>NODE_SLOT_NUMBER := [''b'' \<mapsto> Finite 1003],
     SLOT_DIFFERENCE := [''b'' \<mapsto> Finite (- 3)],
     NODE_SLOT_NUMBER_ERROR_COUNT := [''b'' \<mapsto> 3]\<rparr>"

text \<open>
  In the concrete runs below every slot is an integer, or a float whose difference is not
  looked at, so that nothing stated about them depends on \<open>float_of_str\<close> or \<open>float_sub\<close>:
  \<open>integer_slots\<close> leaves both unspecified.
\<close>

definition integer_slots :: python where
  "integer_slots = \<lparr>float_of_str = undefined, float_sub = undefined\<rparr>"

section \<open>Sequencing, loops and evaluation\<close>

lemma and_then_lift_Return [simp]: "and_then (lift_result (Return v)) f = f v"
  by (simp add: and_then_def lift_result_def)

lemma and_then_lift_Raise [simp]: "and_then (lift_result (Raise e)) f = lift_result (Raise e)"
  by (simp add: and_then_def lift_result_def)

lemma and_then_lift_Blocked [simp]: "and_then (lift_result Blocked) f = lift_result Blocked"
  by (simp add: and_then_def lift_result_def)

lemma and_then_py_return [simp]: "and_then (py_return v) f = f v"
  by (simp add: and_then_def py_return_def)

lemma and_then_Return: "p s = (Return v, s') \<Longrightarrow> and_then p f s = f v s'"
  by (simp add: and_then_def)

lemma and_then_Raise: "p s = (Raise e, s') \<Longrightarrow> and_then p f s = (Raise e, s')"
  by (simp add: and_then_def)

lemma and_then_Blocked: "p s = (Blocked, s') \<Longrightarrow> and_then p f s = (Blocked, s')"
  by (simp add: and_then_def)

lemma and_then_Return_elim:
  assumes "and_then p f s = (Return v, s')"
  obtains u s1 where "p s = (Return u, s1)" "f u s1 = (Return v, s')"
  using assms by (auto simp: and_then_def split: prod.splits result.splits)

lemma and_then_assoc:
  "and_then (and_then p f) g = and_then p (\<lambda>v. and_then (f v) g)"
  by (rule ext) (simp add: and_then_def split: prod.splits result.splits)

lemma for_hosts_append:
  "for_hosts body k (xs @ ys) = and_then (for_hosts body k xs) (\<lambda>_. for_hosts body (k + length xs) ys)"
  by (induction xs arbitrary: k) (simp_all add: and_then_assoc)

lemma probed_append: "probed (xs @ ys) = probed xs @ probed ys"
  by (induction xs rule: probed.induct) simp_all

lemma forever_Looping:
  assumes "\<And>c s. \<exists>s'. body c s = (Return (), s') \<and> f s' = f s @ g c"
  shows "fst (forever fuel body c s) = Looping \<and>
         f (snd (forever fuel body c s)) = f s @ concat (map g [c..<c + fuel])"
proof (induction fuel arbitrary: c s)
  case 0
  show ?case by simp
next
  case (Suc fuel)
  from assms [of c s] obtain s' where step: "body c s = (Return (), s')" "f s' = f s @ g c"
    by blast
  have "[c..<c + Suc fuel] = c # [Suc c..<Suc c + fuel]"
    by (simp add: upt_rec)
  with Suc.IH [of "Suc c" s'] step show ?case
    by simp
qed

lemmas prog_defs = and_then_def lift_result_def py_return_def except_RequestException_def
  requests_post_def send_def subscript_def raise_for_status_def response_json_def

lemmas gauge_defs = NODE_SLOT_NUMBER_set_def SLOT_DIFFERENCE_set_def
  NODE_SLOT_NUMBER_ERROR_COUNT_inc_def REFERENCE_SLOT_NUMBER_set_def
  REFERENCE_SLOT_NUMBER_ERROR_COUNT_inc_def labels_set_def labels_inc_def labels_def

section \<open>Conversion of integers to doubles\<close>

lemma excess_bits_small: "a < 2 ^ 53 \<Longrightarrow> excess_bits a = 0"
  by (subst excess_bits.simps) simp

lemma excess_bits_Suc: "2 ^ 53 \<le> a \<Longrightarrow> excess_bits a = Suc (excess_bits (a div 2))"
  by (subst excess_bits.simps) simp

lemma round_half_even_0: "round_half_even a 0 = a"
  by (simp add: round_half_even_def)

lemma nearest_double_exact:
  assumes "\<bar>i\<bar> \<le> 2 ^ 53"
  shows "nearest_double i = i"
proof (cases "\<bar>i\<bar> < 2 ^ 53")
  case True
  then have "nat \<bar>i\<bar> < 2 ^ 53"
    by (simp add: nat_less_iff)
  then show ?thesis
    by (cases "i < 0") (simp_all add: nearest_double_def excess_bits_small round_half_even_0 Let_def)
next
  case False
  with assms have a: "nat \<bar>i\<bar> = 2 ^ 53"
    by (simp add: nat_eq_iff)
  have "excess_bits (2 ^ 53) = 1"
    by (subst excess_bits.simps) (simp add: excess_bits_small)
  moreover have "round_half_even (2 ^ 53) 1 = 2 ^ 53"
    by (simp add: round_half_even_def)
  ultimately have "int (round_half_even (nat \<bar>i\<bar>) (excess_bits (nat \<bar>i\<bar>))) = 2 ^ 53"
    by (simp add: a)
  moreover from False assms have "\<bar>i\<bar> = 2 ^ 53" by linarith
  ultimately show ?thesis
    unfolding nearest_double_def Let_def by (cases "i < 0") simp_all
qed

lemma float_of_int_exact:
  assumes "\<bar>i\<bar> \<le> 2 ^ 53"
  shows "float_of_int i = Return (Finite (of_int i))"
proof -
  have "(2::int) ^ 53 < 2 ^ 1024" by simp
  with assms have "\<not> 2 ^ 1024 \<le> \<bar>i\<bar>" by linarith
  then show ?thesis
    by (simp add: float_of_int_def nearest_double_exact [OF assms])
qed

lemma pow2_excess_bits_le: "2 ^ 53 \<le> a \<Longrightarrow> 2 ^ excess_bits a \<le> a"
proof (induction a rule: excess_bits.induct)
  case (1 a)
  show ?case
  proof (cases "a div 2 < 2 ^ 53")
    case True
    with "1.prems" have "excess_bits a = 1"
      by (subst excess_bits.simps) (simp add: excess_bits_small)
    with "1.prems" show ?thesis by simp
  next
    case False
    with "1.IH" "1.prems" have "2 ^ excess_bits (a div 2) \<le> a div 2" by simp
    moreover from "1.prems" have "excess_bits a = Suc (excess_bits (a div 2))"
      by (subst excess_bits.simps) simp
    ultimately show ?thesis by simp
  qed
qed

lemma round_half_even_le: "round_half_even a sh \<le> a + 2 ^ sh"
proof -
  define q where "q = a div 2 ^ sh"
  have le: "q * 2 ^ sh \<le> a" by (simp add: q_def)
  have "round_half_even a sh \<le> (q + 1) * 2 ^ sh"
    by (simp add: round_half_even_def Let_def q_def)
  also have "\<dots> = q * 2 ^ sh + 2 ^ sh" by (simp add: algebra_simps)
  finally show ?thesis using le by linarith
qed

lemma round_excess_le: "round_half_even a (excess_bits a) \<le> 2 * a"
proof (cases "a < 2 ^ 53")
  case True
  then show ?thesis by (simp add: excess_bits_small round_half_even_0)
next
  case False
  then have "2 ^ excess_bits a \<le> a" by (simp add: pow2_excess_bits_le)
  with round_half_even_le [of a "excess_bits a"] show ?thesis by simp
qed

lemma nearest_double_le: "\<bar>nearest_double i\<bar> \<le> 2 * \<bar>i\<bar>"
proof -
  have "int (round_half_even (nat \<bar>i\<bar>) (excess_bits (nat \<bar>i\<bar>))) \<le> 2 * \<bar>i\<bar>"
    using round_excess_le [of "nat \<bar>i\<bar>"] by linarith
  then show ?thesis
    by (cases "i < 0") (simp_all add: nearest_double_def Let_def)
qed

lemma float_of_int_bounded:
  assumes "\<bar>i\<bar> < 2 ^ 1023"
  shows "\<exists>x. float_of_int i = Return x"
proof -
  have "(2::int) * 2 ^ 1023 = 2 ^ 1024" by simp
  with assms nearest_double_le [of i] have "\<bar>nearest_double i\<bar> < 2 ^ 1024" by linarith
  then show ?thesis
    by (simp add: float_of_int_def Let_def)
qed

lemma round_half_even_ge: "a div 2 ^ sh * 2 ^ sh \<le> round_half_even a sh"
  by (simp add: round_half_even_def Let_def)

lemma round_excess_ge:
  assumes "2 ^ n \<le> a" and "53 \<le> n"
  shows "2 ^ n \<le> round_half_even a (excess_bits a)"
proof -
  define sh where "sh = excess_bits a"
  have "(2::nat) ^ n \<le> a div 2 ^ sh * 2 ^ sh"
  proof (cases "sh \<le> n")
    case True
    then have split: "(2::nat) ^ n = 2 ^ (n - sh) * 2 ^ sh"
      by (simp add: power_add [symmetric])
    then have "(2::nat) ^ (n - sh) = 2 ^ n div 2 ^ sh"
      by simp
    also have "\<dots> \<le> a div 2 ^ sh"
      using assms(1) by (rule div_le_mono)
    finally have "(2::nat) ^ (n - sh) * 2 ^ sh \<le> a div 2 ^ sh * 2 ^ sh"
      by simp
    with split show ?thesis by simp
  next
    case False
    from assms(2) have "(2::nat) ^ 53 \<le> 2 ^ n"
      by (rule power_increasing) simp
    with assms(1) have "2 ^ 53 \<le> a" by linarith
    then have "2 ^ sh \<le> a" unfolding sh_def by (rule pow2_excess_bits_le)
    then have "2 ^ sh div 2 ^ sh \<le> a div 2 ^ sh"
      by (rule div_le_mono)
    then have "1 \<le> a div 2 ^ sh"
      by simp
    then have "(2::nat) ^ sh \<le> a div 2 ^ sh * 2 ^ sh"
      by simp
    moreover from False have "(2::nat) ^ n \<le> 2 ^ sh"
      by (simp add: power_increasing)
    ultimately show ?thesis by linarith
  qed
  with round_half_even_ge [of a sh] show ?thesis
    unfolding sh_def by linarith
qed

lemma float_of_int_overflow:
  assumes "2 ^ 1024 \<le> \<bar>i\<bar>"
  shows "float_of_int i = Raise OverflowError"
proof -
  have "(2::nat) ^ 1024 \<le> nat \<bar>i\<bar>"
    using assms by (simp add: le_nat_iff)
  then have "(2::nat) ^ 1024 \<le> round_half_even (nat \<bar>i\<bar>) (excess_bits (nat \<bar>i\<bar>))"
    by (rule round_excess_ge) simp
  then have "int (2 ^ 1024) \<le> int (round_half_even (nat \<bar>i\<bar>) (excess_bits (nat \<bar>i\<bar>)))"
    by (simp only: of_nat_le_iff)
  then have "(2::int) ^ 1024 \<le> int (round_half_even (nat \<bar>i\<bar>) (excess_bits (nat \<bar>i\<bar>)))"
    by simp
  then have "2 ^ 1024 \<le> \<bar>nearest_double i\<bar>"
    by (cases "i < 0") (simp_all add: nearest_double_def Let_def)
  then show ?thesis
    by (simp add: float_of_int_def Let_def)
qed

text \<open>
  Integers above \<open>2 ^ 53\<close> that are not doubles, and the doubles \<^verbatim>\<open>float()\<close> gives for them.
\<close>

lemma float_of_int_ties:
  "float_of_int 9007199254740995 = Return (Finite 9007199254740996)"
  "float_of_int 9007199254740997 = Return (Finite 9007199254740996)"
  "float_of_int 18014398509481986 = Return (Finite 18014398509481984)"
  "float_of_int 18014398509481987 = Return (Finite 18014398509481988)"
  by (simp_all add: float_of_int_def nearest_double_def round_half_even_def Let_def
      excess_bits_small excess_bits_Suc)

section \<open>The getHealth probe and the heartbeat cycle\<close>

lemma send_heartbeat_snd:
  "snd (send_heartbeat net url s) = s\<lparr>requests := requests s @ [GET url]\<rparr>"
  by (simp add: send_heartbeat_def requests_get_def prog_defs
      split: reply.splits result.splits prod.splits if_splits)

lemma send_heartbeat_absorbs:
  "get_absorbed (net (GET url)) \<Longrightarrow>
   send_heartbeat net url s = (Return (), s\<lparr>requests := requests s @ [GET url]\<rparr>)"
  by (auto simp: send_heartbeat_def requests_get_def prog_defs get_absorbed_def
      split: reply.splits)

lemma check_rpc_call_no_url:
  "host ''rpc_url'' = None \<Longrightarrow> check_rpc_call net host s = (Raise (KeyError ''rpc_url''), s)"
  by (simp add: check_rpc_call_def prog_defs)

lemma check_rpc_call_snd:
  "host ''rpc_url'' = Some url \<Longrightarrow>
   snd (check_rpc_call net host s) = s\<lparr>requests := requests s @ [POST url]\<rparr>"
  by (simp add: check_rpc_call_def prog_defs
      split: option.splits result.splits prod.splits if_splits reply.splits sum.splits)

lemma check_rpc_call_fst:
  "fst (check_rpc_call net host s) = fst (check_rpc_call net host t)"
  by (simp add: check_rpc_call_def prog_defs
      split: option.splits result.splits prod.splits if_splits reply.splits sum.splits)

lemma check_rpc_call_cases:
  obtains (no_url) "host ''rpc_url'' = None" "check_rpc_call net host s = (Raise (KeyError ''rpc_url''), s)"
  | (probed) url r where "host ''rpc_url'' = Some url"
      "check_rpc_call net host s = (r, s\<lparr>requests := requests s @ [POST url]\<rparr>)"
proof (cases "host ''rpc_url''")
  case None
  then show ?thesis using no_url check_rpc_call_no_url by blast
next
  case (Some url)
  then show ?thesis
    using probed [of url "fst (check_rpc_call net host s)"] check_rpc_call_snd [of host url net s]
    by (metis prod.collapse)
qed

lemma check_rpc_call_object_full:
  assumes "host ''rpc_url'' = Some url" and "host ''host'' = Some label"
    and "object_or_absorbed (net (POST url))"
  shows "check_rpc_call net host s =
     (Return (case net (POST url) of
                Answers r \<Rightarrow> raise_for_status r = Return () \<and>
                  (case decoded r of
                     Inl e \<Rightarrow> False
                   | Inr body \<Rightarrow> py_in ''error'' body = Return False)
              | _ \<Rightarrow> False),
      s\<lparr>requests := requests s @ [POST url]\<rparr>)"
proof (cases "net (POST url)")
  case (Raises e)
  with assms(1,3) show ?thesis
    by (simp add: check_rpc_call_def prog_defs object_or_absorbed_def)
next
  case Silent
  with assms(3) show ?thesis by (simp add: object_or_absorbed_def)
next
  case (Answers r)
  show ?thesis
  proof (cases "raise_for_status r = Return ()")
    case False
    with Answers assms(1) show ?thesis
      by (simp add: check_rpc_call_def prog_defs split: if_splits)
  next
    case ok: True
    show ?thesis
    proof (cases "decoded r")
      case (Inl e)
      with Answers ok assms(1,3) show ?thesis
        by (simp add: check_rpc_call_def prog_defs object_or_absorbed_def split: if_splits)
    next
      case (Inr body)
      with assms(3) Answers ok obtain kvs where "body = PDict kvs"
        by (cases body) (auto simp: object_or_absorbed_def is_dict_def)
      with Inr Answers ok assms(1,2) show ?thesis
        by (simp add: check_rpc_call_def prog_defs split: if_splits option.splits)
    qed
  qed
qed

lemma check_rpc_call_object:
  assumes "host ''rpc_url'' = Some url" and "host ''host'' = Some label"
    and "object_or_absorbed (net (POST url))"
  shows "\<exists>b. check_rpc_call net host s = (Return b, s\<lparr>requests := requests s @ [POST url]\<rparr>)"
  using check_rpc_call_object_full [of host url label net s] assms by blast

text \<open>
  C5, as stated, does not hold. A 200 response whose body is the JSON array \<^verbatim>\<open>[]\<close> has no
  top-level \<^verbatim>\<open>error\<close> field, yet \<^verbatim>\<open>result.get('result')\<close> in the log message raises
  AttributeError, which \<^verbatim>\<open>except requests.RequestException\<close> does not catch. A 300
  response (not 2xx, but no error for \<^verbatim>\<open>raise_for_status\<close>) with an object body is Healthy.
  A request that fails with urllib3's \<^verbatim>\<open>LocationParseError\<close> and a body on which
  \<^verbatim>\<open>response.json()\<close> raises \<^verbatim>\<open>RecursionError\<close> make the probe raise too.
\<close>

theorem check_rpc_call_counterexample:
  "fst (check_rpc_call (answering array_body) host_a idle) = Raise AttributeError
   \<and> fst (check_rpc_call (answering multiple_choices) host_a idle) = Return True
   \<and> fst (check_rpc_call (answering bad_host) host_a idle) = Raise (Other ''LocationParseError'')
   \<and> fst (check_rpc_call (answering deep_body) host_a idle) = Raise (Other ''RecursionError'')"
  by (simp add: idle_def answering_def host_a_def array_body_def multiple_choices_def
      bad_host_def deep_body_def check_rpc_call_def prog_defs)

text \<open>
  C5, amended. For a host entry that has the keys \<^verbatim>\<open>rpc_url\<close> and \<^verbatim>\<open>host\<close>, the getHealth
  probe returns a verdict, and does not raise, in each of these cases: the request raises a
  \<^verbatim>\<open>RequestException\<close> (Unhealthy), the status is from 400 to 599 (Unhealthy),
  \<^verbatim>\<open>response.json()\<close> raises a \<^verbatim>\<open>RequestException\<close> because the body is not JSON
  (Unhealthy), and the body decodes to a JSON object, which is Healthy exactly when the
  object has no top-level \<^verbatim>\<open>error\<close> key.
\<close>

theorem check_rpc_call_verdict:
  assumes "host ''rpc_url'' = Some url" and "host ''host'' = Some label"
  shows "(\<forall>e. net (POST url) = Raises e \<and> is_RequestException e \<longrightarrow>
            fst (check_rpc_call net host s) = Return False)
    \<and> (\<forall>r. net (POST url) = Answers r \<longrightarrow>
         (raise_for_status r = Raise HTTPError \<longrightarrow> fst (check_rpc_call net host s) = Return False)
       \<and> (\<forall>e. raise_for_status r = Return () \<and> decoded r = Inl e \<and> is_RequestException e \<longrightarrow>
            fst (check_rpc_call net host s) = Return False)
       \<and> (\<forall>kvs. raise_for_status r = Return () \<and> decoded r = Inr (PDict kvs) \<longrightarrow>
            fst (check_rpc_call net host s) = Return (map_of kvs ''error'' = None)))"
proof -
  have full: "fst (check_rpc_call net host s) =
      Return (case net (POST url) of
                Answers r \<Rightarrow> raise_for_status r = Return () \<and>
                  (case decoded r of
                     Inl e \<Rightarrow> False
                   | Inr body \<Rightarrow> py_in ''error'' body = Return False)
              | _ \<Rightarrow> False)"
    if "object_or_absorbed (net (POST url))"
    using check_rpc_call_object_full [of host url label net s] assms that by simp
  have "fst (check_rpc_call net host s) = Return False"
    if "net (POST url) = Raises e" "is_RequestException e" for e
    using full that by (simp add: object_or_absorbed_def)
  moreover have "fst (check_rpc_call net host s) = Return False"
    if "net (POST url) = Answers r" "raise_for_status r = Raise HTTPError" for r
    using full that by (simp add: object_or_absorbed_def)
  moreover have "fst (check_rpc_call net host s) = Return False"
    if "net (POST url) = Answers r" "raise_for_status r = Return ()" "decoded r = Inl e"
      "is_RequestException e" for r e
    using full that by (simp add: object_or_absorbed_def)
  moreover have "fst (check_rpc_call net host s) = Return (map_of kvs ''error'' = None)"
    if "net (POST url) = Answers r" "raise_for_status r = Return ()" "decoded r = Inr (PDict kvs)"
    for r kvs
    using full that by (simp add: object_or_absorbed_def is_dict_def)
  ultimately show ?thesis by blast
qed

text \<open>
  The replies of scenarios 3 and 4, a 503 that is not JSON, a 429 with a JSON-RPC body that
  has no \<^verbatim>\<open>error\<close>, and a refused connection, for host \<open>a\<close>.
\<close>

theorem check_rpc_call_verdict_witness:
  "fst (check_rpc_call (answering health_ok) host_a idle) = Return True
   \<and> fst (check_rpc_call (answering health_error) host_a idle) = Return False
   \<and> fst (check_rpc_call (answering server_error) host_a idle) = Return False
   \<and> fst (check_rpc_call (answering (rpc_reply 429 (PStr ''ok''))) host_a idle) = Return False
   \<and> fst (check_rpc_call (answering refused) host_a idle) = Return False"
  using check_rpc_call_verdict [of host_a "''http://a:8899''" "''a''" "answering health_ok" idle]
    check_rpc_call_verdict [of host_a "''http://a:8899''" "''a''" "answering health_error" idle]
    check_rpc_call_verdict [of host_a "''http://a:8899''" "''a''" "answering server_error" idle]
    check_rpc_call_verdict [of host_a "''http://a:8899''" "''a''"
      "answering (rpc_reply 429 (PStr ''ok''))" idle]
    check_rpc_call_verdict [of host_a "''http://a:8899''" "''a''" "answering refused" idle]
  by (simp add: answering_def host_a_def health_ok_def rpc_reply_def health_error_def
      server_error_def refused_def raise_for_status_def)

lemma job_body_sent:
  assumes "job_body net h s = (res, s')"
  shows "\<exists>rs. requests s' = requests s @ rs \<and>
     (rs = [] \<and> res \<noteq> Return () \<or> heartbeat_rule h (fst (check_rpc_call net h t)) rs) \<and>
     (res = Return () \<longrightarrow> rs \<noteq> [])"
proof (cases rule: check_rpc_call_cases [of h net s])
  case no_url
  with assms have "s' = s" "res \<noteq> Return ()"
    by (auto simp: job_body_def and_then_def)
  then show ?thesis by simp
next
  case (probed url r)
  have v: "fst (check_rpc_call net h t) = r"
    using probed(2) check_rpc_call_fst [of net h t s] by simp
  let ?s1 = "s\<lparr>requests := requests s @ [POST url]\<rparr>"
  show ?thesis
  proof (cases "r = Return True")
    case True
    show ?thesis
    proof (cases "h ''heartbeat_endpoint''")
      case None
      with assms probed True have "s' = ?s1" "res \<noteq> Return ()"
        by (auto simp: job_body_def and_then_def subscript_def lift_result_def)
      with probed(1) v True None show ?thesis
        by (simp add: heartbeat_rule_def)
    next
      case (Some ep)
      with assms probed True have "(res, s') = send_heartbeat net ep ?s1"
        by (simp add: job_body_def and_then_def subscript_def lift_result_def)
      then have "s' = ?s1\<lparr>requests := requests ?s1 @ [GET ep]\<rparr>"
        using send_heartbeat_snd [of net ep ?s1] by (metis snd_conv)
      with probed(1) v True Some show ?thesis
        by (simp add: heartbeat_rule_def)
    qed
  next
    case False
    with assms probed have "s' = ?s1"
      by (cases r) (auto simp: job_body_def and_then_def py_return_def split: if_splits)
    with probed(1) v False show ?thesis
      by (simp add: heartbeat_rule_def)
  qed
qed

lemma for_hosts_job_body:
  assumes "for_hosts (\<lambda>i h. job_body (net i) h) k hs s = (res, s')"
  shows "\<exists>per. length per = length hs \<and> requests s' = requests s @ concat per \<and>
     (\<forall>i<length hs. per ! i = [] \<or>
        heartbeat_rule (hs ! i) (fst (check_rpc_call (net (k + i)) (hs ! i) t)) (per ! i)) \<and>
     (\<forall>i<length hs. per ! i = [] \<longrightarrow>
        res \<noteq> Return () \<and> (\<forall>j<length hs. i < j \<longrightarrow> per ! j = []))"
  using assms
proof (induction hs arbitrary: k s)
  case Nil
  then show ?case by (simp add: py_return_def)
next
  case (Cons h hs)
  obtain r1 s1 where step: "job_body (net k) h s = (r1, s1)"
    by (cases "job_body (net k) h s")
  from job_body_sent [OF step, of t] obtain rs where
    rs: "requests s1 = requests s @ rs"
        "rs = [] \<and> r1 \<noteq> Return () \<or> heartbeat_rule h (fst (check_rpc_call (net k) h t)) rs"
        "r1 = Return () \<longrightarrow> rs \<noteq> []" by blast
  show ?case
  proof (cases "r1 = Return ()")
    case True
    with Cons.prems step
    have rest: "for_hosts (\<lambda>i h. job_body (net i) h) (Suc k) hs s1 = (res, s')"
      by (simp add: and_then_def)
    from Cons.IH [OF rest] obtain per where
      per: "length per = length hs" "requests s' = requests s1 @ concat per"
        "\<forall>i<length hs. per ! i = [] \<or>
          heartbeat_rule (hs ! i) (fst (check_rpc_call (net (Suc k + i)) (hs ! i) t)) (per ! i)"
        "\<forall>i<length hs. per ! i = [] \<longrightarrow>
          res \<noteq> Return () \<and> (\<forall>j<length hs. i < j \<longrightarrow> per ! j = [])" by blast
    from True rs have rs0: "rs \<noteq> []" "heartbeat_rule h (fst (check_rpc_call (net k) h t)) rs"
      by auto
    have a: "\<forall>i<length (h # hs). (rs # per) ! i = [] \<or>
        heartbeat_rule ((h # hs) ! i) (fst (check_rpc_call (net (k + i)) ((h # hs) ! i) t)) ((rs # per) ! i)"
    proof (intro allI impI)
      fix i assume "i < length (h # hs)"
      then show "(rs # per) ! i = [] \<or>
        heartbeat_rule ((h # hs) ! i) (fst (check_rpc_call (net (k + i)) ((h # hs) ! i) t)) ((rs # per) ! i)"
        using rs0(2) per(3) by (cases i) auto
    qed
    have b: "\<forall>i<length (h # hs). (rs # per) ! i = [] \<longrightarrow>
        res \<noteq> Return () \<and> (\<forall>j<length (h # hs). i < j \<longrightarrow> (rs # per) ! j = [])"
    proof (intro allI impI)
      fix i assume i: "i < length (h # hs)" and e: "(rs # per) ! i = []"
      from e rs0(1) obtain i' where i': "i = Suc i'" by (cases i) auto
      with i e have "i' < length hs" "per ! i' = []" by auto
      with per(4) have r: "res \<noteq> Return ()" and l: "\<forall>j<length hs. i' < j \<longrightarrow> per ! j = []"
        by auto
      have "\<forall>j<length (h # hs). i < j \<longrightarrow> (rs # per) ! j = []"
      proof (intro allI impI)
        fix j assume "j < length (h # hs)" "i < j"
        then show "(rs # per) ! j = []" using l i' by (cases j) auto
      qed
      with r show "res \<noteq> Return () \<and> (\<forall>j<length (h # hs). i < j \<longrightarrow> (rs # per) ! j = [])"
        by simp
    qed
    from rs(1) per(1,2) a b show ?thesis
      by (intro exI [of _ "rs # per"]) simp
  next
    case False
    with Cons.prems step have res: "res = r1" "s' = s1"
      by (cases r1; simp add: and_then_def)+
    let ?per = "rs # replicate (length hs) []"
    have a: "\<forall>i<length (h # hs). ?per ! i = [] \<or>
        heartbeat_rule ((h # hs) ! i) (fst (check_rpc_call (net (k + i)) ((h # hs) ! i) t)) (?per ! i)"
    proof (intro allI impI)
      fix i assume "i < length (h # hs)"
      then show "?per ! i = [] \<or>
        heartbeat_rule ((h # hs) ! i) (fst (check_rpc_call (net (k + i)) ((h # hs) ! i) t)) (?per ! i)"
        using rs(2) by (cases i) auto
    qed
    have b: "\<forall>i<length (h # hs). ?per ! i = [] \<longrightarrow>
        res \<noteq> Return () \<and> (\<forall>j<length (h # hs). i < j \<longrightarrow> ?per ! j = [])"
    proof (intro allI impI)
      fix i assume "i < length (h # hs)" "?per ! i = []"
      have "\<forall>j<length (h # hs). i < j \<longrightarrow> ?per ! j = []"
      proof (intro allI impI)
        fix j assume "j < length (h # hs)" "i < j"
        then show "?per ! j = []" by (cases j) auto
      qed
      with False res show "res \<noteq> Return () \<and> (\<forall>j<length (h # hs). i < j \<longrightarrow> ?per ! j = [])"
        by simp
    qed
    from rs(1) res a b show ?thesis
      by (intro exI [of _ ?per]) simp
  qed
qed

text \<open>
  C2. Whatever the outcome of a heartbeat cycle (it returns, an exception ends it, or a
  call never comes back), the requests it sent are, host by host and in the configured
  order, those of the hosts it reached: for each of them the probe of its \<^verbatim>\<open>rpc_url\<close>,
  followed by exactly one GET to its \<^verbatim>\<open>heartbeat_endpoint\<close> when its probe reports healthy,
  and by nothing when the probe reports unhealthy or raises. A host is not reached (nothing
  is sent for it) only when the cycle did not return, and then no later host is reached
  either. A healthy host without the key \<^verbatim>\<open>heartbeat_endpoint\<close> gets no GET: the cycle ends
  there.
\<close>

theorem job_heartbeat_iff_healthy:
  assumes "hosts config = Some hs" and "job config net s = (res, s')"
  shows "\<exists>per. length per = length hs \<and> requests s' = requests s @ concat per \<and>
     (\<forall>i<length hs. per ! i = [] \<or>
        (\<exists>url. (hs ! i) ''rpc_url'' = Some url \<and>
          (fst (check_rpc_call (net i) (hs ! i) s) = Return True \<and>
             (\<exists>ep. (hs ! i) ''heartbeat_endpoint'' = Some ep \<and> per ! i = [POST url, GET ep])
           \<or> fst (check_rpc_call (net i) (hs ! i) s) = Return True \<and>
             (hs ! i) ''heartbeat_endpoint'' = None \<and> per ! i = [POST url]
           \<or> fst (check_rpc_call (net i) (hs ! i) s) \<noteq> Return True \<and> per ! i = [POST url]))) \<and>
     (\<forall>i<length hs. per ! i = [] \<longrightarrow>
        res \<noteq> Return () \<and> (\<forall>j<length hs. i < j \<longrightarrow> per ! j = []))"
proof -
  from assms have "for_hosts (\<lambda>i h. job_body (net i) h) 0 hs s = (res, s')"
    by (simp add: job_def subscript_def)
  from for_hosts_job_body [OF this, of s] show ?thesis
    by (simp add: heartbeat_rule_def)
qed

text \<open>
  Host \<open>a\<close> healthy, host \<open>b\<close> answering with an \<^verbatim>\<open>error\<close> object, host \<open>c\<close> healthy but
  without an endpoint, which ends the cycle with KeyError: one heartbeat, for \<open>a\<close>.
\<close>

theorem job_heartbeat_iff_healthy_witness:
  "\<exists>per. length per = 3
     \<and> requests (snd (job (heartbeat_config [host_a, host_b, host_c])
          (\<lambda>i. answering (if i = 1 then health_error else health_ok)) idle)) = concat per
     \<and> per ! 0 = [POST ''http://a:8899'', GET ''http://beat/a'']
     \<and> per ! 1 = [POST ''http://b:8899'']
     \<and> per ! 2 = [POST ''http://c:8899'']"
proof -
  let ?net = "\<lambda>i::nat. answering (if i = 1 then health_error else health_ok)"
  let ?cycle = "job (heartbeat_config [host_a, host_b, host_c]) ?net idle"
  have cfg: "hosts (heartbeat_config [host_a, host_b, host_c]) = Some [host_a, host_b, host_c]"
    by (simp add: heartbeat_config_def)
  have run: "?cycle = (fst ?cycle, snd ?cycle)"
    by simp
  have v0: "fst (check_rpc_call (?net 0) host_a idle) = Return True"
    by (simp add: idle_def answering_def host_a_def health_ok_def rpc_reply_def
        check_rpc_call_def prog_defs)
  have v1: "fst (check_rpc_call (?net 1) host_b idle) = Return False"
    by (simp add: idle_def answering_def host_b_def health_error_def
        check_rpc_call_def prog_defs)
  have v2: "fst (check_rpc_call (?net 2) host_c idle) = Return True"
    by (simp add: idle_def answering_def host_c_def health_ok_def rpc_reply_def
        check_rpc_call_def prog_defs)
  have keys: "host_a ''rpc_url'' = Some ''http://a:8899''"
    "host_a ''heartbeat_endpoint'' = Some ''http://beat/a''"
    "host_b ''rpc_url'' = Some ''http://b:8899''"
    "host_c ''rpc_url'' = Some ''http://c:8899''"
    "host_c ''heartbeat_endpoint'' = None"
    by (simp_all add: host_a_def host_b_def host_c_def)
  have sent: "requests (snd ?cycle) = [POST ''http://a:8899'', GET ''http://beat/a'',
      POST ''http://b:8899'', POST ''http://c:8899'']"
    by (simp add: idle_def answering_def host_a_def host_b_def host_c_def health_ok_def
        rpc_reply_def health_error_def heartbeat_config_def job_def job_body_def check_rpc_call_def send_heartbeat_def requests_get_def prog_defs)
  from job_heartbeat_iff_healthy [OF cfg run]
  obtain per where len: "length per = length [host_a, host_b, host_c]"
    and cat: "requests (snd ?cycle) = requests idle @ concat per"
    and rule: "\<forall>i<length [host_a, host_b, host_c]. per ! i = [] \<or>
        (\<exists>url. ([host_a, host_b, host_c] ! i) ''rpc_url'' = Some url \<and>
          (fst (check_rpc_call (?net i) ([host_a, host_b, host_c] ! i) idle) = Return True \<and>
             (\<exists>ep. ([host_a, host_b, host_c] ! i) ''heartbeat_endpoint'' = Some ep \<and>
                per ! i = [POST url, GET ep])
           \<or> fst (check_rpc_call (?net i) ([host_a, host_b, host_c] ! i) idle) = Return True \<and>
             ([host_a, host_b, host_c] ! i) ''heartbeat_endpoint'' = None \<and> per ! i = [POST url]
           \<or> fst (check_rpc_call (?net i) ([host_a, host_b, host_c] ! i) idle) \<noteq> Return True \<and>
             per ! i = [POST url]))"
    and stop: "\<forall>i<length [host_a, host_b, host_c]. per ! i = [] \<longrightarrow>
        fst ?cycle \<noteq> Return () \<and> (\<forall>j<length [host_a, host_b, host_c]. i < j \<longrightarrow> per ! j = [])"
    by blast
  from len obtain p0 p1 p2 where per: "per = [p0, p1, p2]"
    by (auto simp: length_Suc_conv)
  from rule [THEN spec, of 0] v0 keys have p0: "p0 = [] \<or> p0 = [POST ''http://a:8899'', GET ''http://beat/a'']"
    by (auto simp: per)
  from rule [THEN spec, of 1] v1 keys have p1: "p1 = [] \<or> p1 = [POST ''http://b:8899'']"
    by (auto simp: per)
  from rule [THEN spec, of 2] v2 keys have p2: "p2 = [] \<or> p2 = [POST ''http://c:8899'']"
    by (auto simp: per)
  from stop [THEN spec, of 0] have s0: "p0 = [] \<longrightarrow> p1 = [] \<and> p2 = []"
    by (auto simp: per dest: spec [of _ 1] spec [of _ 2])
  from stop [THEN spec, of 1] have s1: "p1 = [] \<longrightarrow> p2 = []"
    by (auto simp: per dest: spec [of _ 2])
  from cat sent have "p0 @ p1 @ p2 = [POST ''http://a:8899'', GET ''http://beat/a'',
      POST ''http://b:8899'', POST ''http://c:8899'']"
    by (simp add: per idle_def)
  with p0 p1 p2 s0 s1 have "p0 = [POST ''http://a:8899'', GET ''http://beat/a'']"
    "p1 = [POST ''http://b:8899'']" "p2 = [POST ''http://c:8899'']"
    by auto
  with len cat show ?thesis
    by (intro exI [of _ per]) (simp add: per idle_def)
qed

text \<open>
  C10. When the hosts before \<open>h\<close> have been handled, \<open>h\<close> has no \<^verbatim>\<open>heartbeat_endpoint\<close> key and
  its probe reports healthy, the cycle raises \<^verbatim>\<open>KeyError('heartbeat_endpoint')\<close>: the last
  request sent is the probe of \<open>h\<close>, so no heartbeat goes out for \<open>h\<close> and no host after
  \<open>h\<close> is probed.
\<close>

theorem job_missing_endpoint_raises:
  assumes "hosts config = Some (pre @ h # post)"
    and "job (config\<lparr>hosts := Some pre\<rparr>) net s = (Return (), s1)"
    and "h ''rpc_url'' = Some url" and "h ''heartbeat_endpoint'' = None"
    and "fst (check_rpc_call (net (length pre)) h s1) = Return True"
  shows "job config net s =
     (Raise (KeyError ''heartbeat_endpoint''), s1\<lparr>requests := requests s1 @ [POST url]\<rparr>)"
proof -
  from assms(2) have pre: "for_hosts (\<lambda>i host. job_body (net i) host) 0 pre s = (Return (), s1)"
    by (simp add: job_def subscript_def)
  from assms(3,5) have "check_rpc_call (net (length pre)) h s1 =
      (Return True, s1\<lparr>requests := requests s1 @ [POST url]\<rparr>)"
    using check_rpc_call_snd [of h url "net (length pre)" s1]
    by (metis prod.collapse)
  with assms(4) have "job_body (net (length pre)) h s1 =
      (Raise (KeyError ''heartbeat_endpoint''), s1\<lparr>requests := requests s1 @ [POST url]\<rparr>)"
    by (simp add: job_body_def and_then_def subscript_def lift_result_def)
  then have "for_hosts (\<lambda>i host. job_body (net i) host) (length pre) (h # post) s1 =
      (Raise (KeyError ''heartbeat_endpoint''), s1\<lparr>requests := requests s1 @ [POST url]\<rparr>)"
    by (simp add: and_then_Raise)
  with pre assms(1) show ?thesis
    by (simp add: job_def subscript_def for_hosts_append and_then_Return)
qed

text \<open>
  Such a configuration: \<open>c\<close>, without the key, between \<open>a\<close> and \<open>b\<close>, all healthy.
\<close>

theorem job_missing_endpoint_raises_witness:
  "job (heartbeat_config [host_a, host_c, host_b]) (\<lambda>_. answering health_ok) idle =
     (Raise (KeyError ''heartbeat_endpoint''),
      \<lparr>requests = [POST ''http://a:8899'', GET ''http://beat/a'', POST ''http://c:8899'']\<rparr>)"
proof -
  have pre: "job (heartbeat_config [host_a, host_c, host_b]\<lparr>hosts := Some [host_a]\<rparr>) (\<lambda>_. answering health_ok) idle
      = (Return (), \<lparr>requests = [POST ''http://a:8899'', GET ''http://beat/a'']\<rparr>)"
    by (simp add: idle_def answering_def host_a_def health_ok_def rpc_reply_def
        heartbeat_config_def job_def job_body_def check_rpc_call_def send_heartbeat_def requests_get_def prog_defs)
  have healthy: "fst (check_rpc_call (answering health_ok) host_c
      \<lparr>requests = [POST ''http://a:8899'', GET ''http://beat/a'']\<rparr>) = Return True"
    by (simp add: answering_def host_c_def health_ok_def rpc_reply_def
        check_rpc_call_def prog_defs)
  show ?thesis
    using job_missing_endpoint_raises [of "heartbeat_config [host_a, host_c, host_b]"
        "[host_a]" host_c "[host_b]" "\<lambda>_. answering health_ok" idle
        "\<lparr>requests = [POST ''http://a:8899'', GET ''http://beat/a'']\<rparr>" "''http://c:8899''"]
      pre healthy
    by (simp add: host_c_def heartbeat_config_def)
qed

section \<open>The getSlot probe and the exporter cycle\<close>

lemma get_slot_number_snd:
  "snd (get_slot_number net url s) = s\<lparr>requests := requests s @ [POST url]\<rparr>"
  by (simp add: get_slot_number_def prog_defs
      split: option.splits result.splits prod.splits if_splits reply.splits sum.splits)

lemma get_slot_number_fst:
  "fst (get_slot_number net url s) = fst (get_slot_number net url t)"
  by (simp add: get_slot_number_def prog_defs
      split: option.splits result.splits prod.splits if_splits reply.splits sum.splits)

lemma get_slot_number_eq:
  "get_slot_number net url s = (fst (get_slot_number net url t), s\<lparr>requests := requests s @ [POST url]\<rparr>)"
  using get_slot_number_snd [of net url s] get_slot_number_fst [of net url s t]
  by (metis prod.collapse)

lemma get_slot_number_full:
  "fst (get_slot_number net url s) =
     (case net (POST url) of
        Raises e \<Rightarrow> if is_RequestException e then Return PNone else Raise e
      | Silent \<Rightarrow> Blocked
      | Answers r \<Rightarrow>
          if raise_for_status r = Return () then
            (case decoded r of
               Inl e \<Rightarrow> if is_RequestException e then Return PNone else Raise e
             | Inr body \<Rightarrow> py_get body ''result'')
          else Return PNone)"
  by (cases "net (POST url)")
    (auto simp: get_slot_number_def prog_defs split: sum.splits result.splits pyval.splits
      elim!: py_get.elims)

text \<open>
  C6, as stated, does not hold. The value of \<^verbatim>\<open>result\<close> is returned as it is, so the string
  \<^verbatim>\<open>"abc"\<close> comes back as a string; a body that is a JSON array makes \<^verbatim>\<open>.get\<close> raise
  AttributeError, which is not caught; a 300 is not an error for \<^verbatim>\<open>raise_for_status\<close>, so
  that the \<^verbatim>\<open>result\<close> of a response that is not 2xx is returned as a value; and the probe
  raises on urllib3's \<^verbatim>\<open>LocationParseError\<close> and on a \<^verbatim>\<open>RecursionError\<close> of the decoder.
\<close>

theorem get_slot_number_counterexample:
  "fst (get_slot_number (answering (slot_reply (PStr ''abc''))) ''http://ref:8899'' idle)
     = Return (PStr ''abc'')
   \<and> fst (get_slot_number (answering array_body) ''http://ref:8899'' idle) = Raise AttributeError
   \<and> fst (get_slot_number (answering (rpc_reply 300 (PInt 5))) ''http://ref:8899'' idle)
     = Return (PInt 5)
   \<and> fst (get_slot_number (answering bad_host) ''http://ref:8899'' idle)
     = Raise (Other ''LocationParseError'')
   \<and> fst (get_slot_number (answering deep_body) ''http://ref:8899'' idle)
     = Raise (Other ''RecursionError'')"
  by (simp add: idle_def answering_def array_body_def slot_reply_def rpc_reply_def bad_host_def
      deep_body_def get_slot_number_def prog_defs)

text \<open>
  C6, amended. The getSlot probe yields no value (\<open>PNone\<close>) when the request raises a
  \<^verbatim>\<open>RequestException\<close>, when the status is from 400 to 599 and when \<^verbatim>\<open>response.json()\<close>
  raises a \<^verbatim>\<open>RequestException\<close> because the body is not JSON. When the body decodes to a
  JSON object, it yields the value of the \<^verbatim>\<open>result\<close> field unchanged, whatever its type (the
  integer when it is one), and no value when the field is missing or null.
\<close>

theorem get_slot_number_value:
  "(\<forall>e. net (POST url) = Raises e \<and> is_RequestException e \<longrightarrow>
       fst (get_slot_number net url s) = Return PNone)
   \<and> (\<forall>r. net (POST url) = Answers r \<longrightarrow>
        (raise_for_status r = Raise HTTPError \<longrightarrow> fst (get_slot_number net url s) = Return PNone)
      \<and> (\<forall>e. raise_for_status r = Return () \<and> decoded r = Inl e \<and> is_RequestException e \<longrightarrow>
           fst (get_slot_number net url s) = Return PNone)
      \<and> (\<forall>kvs. raise_for_status r = Return () \<and> decoded r = Inr (PDict kvs) \<longrightarrow>
           fst (get_slot_number net url s) =
             Return (case map_of kvs ''result'' of None \<Rightarrow> PNone | Some v \<Rightarrow> v)))"
  by (cases "net (POST url)") (auto simp: get_slot_number_full)

text \<open>
  A slot of 1000, an object without \<^verbatim>\<open>result\<close>, a 503 that is not JSON, a 429 whose JSON
  body has a \<^verbatim>\<open>result\<close>, and a refused connection.
\<close>

theorem get_slot_number_value_witness:
  "fst (get_slot_number (answering (slot_reply (PInt 1000))) ''http://ref:8899'' idle) = Return (PInt 1000)
   \<and> fst (get_slot_number (answering no_result) ''http://ref:8899'' idle) = Return PNone
   \<and> fst (get_slot_number (answering server_error) ''http://ref:8899'' idle) = Return PNone
   \<and> fst (get_slot_number (answering (rpc_reply 429 (PInt 1000))) ''http://ref:8899'' idle) = Return PNone
   \<and> fst (get_slot_number (answering refused) ''http://ref:8899'' idle) = Return PNone"
  using get_slot_number_value [of "answering (slot_reply (PInt 1000))" "''http://ref:8899''" idle]
    get_slot_number_value [of "answering no_result" "''http://ref:8899''" idle]
    get_slot_number_value [of "answering server_error" "''http://ref:8899''" idle]
    get_slot_number_value [of "answering (rpc_reply 429 (PInt 1000))" "''http://ref:8899''" idle]
    get_slot_number_value [of "answering refused" "''http://ref:8899''" idle]
  by (simp add: answering_def server_error_def slot_reply_def rpc_reply_def no_result_def
      refused_def raise_for_status_def)

lemma check_node_slots_unfold:
  assumes "reference_endpoint config = Some url"
  shows "check_node_slots py config ref net s =
     (let s0 = s\<lparr>requests := requests s @ [POST url]\<rparr> in
      case fst (get_slot_number ref url s) of
        Return v \<Rightarrow>
          if v \<noteq> PNone then
            (case py_float py v of
               Return x \<Rightarrow>
                 (case hosts config of
                    None \<Rightarrow> (Raise (KeyError ''hosts''), s0\<lparr>REFERENCE_SLOT_NUMBER := x\<rparr>)
                  | Some hs \<Rightarrow>
                      for_hosts (\<lambda>i host. check_node py v (net i) host) 0 hs
                        (s0\<lparr>REFERENCE_SLOT_NUMBER := x\<rparr>))
             | Raise e \<Rightarrow> (Raise e, s0)
             | Blocked \<Rightarrow> (Blocked, s0))
          else (Return (), s0\<lparr>REFERENCE_SLOT_NUMBER_ERROR_COUNT :=
                  REFERENCE_SLOT_NUMBER_ERROR_COUNT s0 + 1\<rparr>)
      | Raise e \<Rightarrow> (Raise e, s0)
      | Blocked \<Rightarrow> (Blocked, s0))"
proof -
  have "get_slot_number ref url s =
      (fst (get_slot_number ref url s), s\<lparr>requests := requests s @ [POST url]\<rparr>)"
    by (rule get_slot_number_eq)
  then show ?thesis
    using assms
    by (cases "fst (get_slot_number ref url s)")
      (simp_all add: check_node_slots_def subscript_def and_then_def lift_result_def Let_def
        REFERENCE_SLOT_NUMBER_set_def REFERENCE_SLOT_NUMBER_ERROR_COUNT_inc_def
        split: result.splits option.splits)
qed

text \<open>
  C3. When the reference probe yields no value, the cycle returns after one request, the
  one to the reference endpoint, and its only effect on the metrics is that the reference
  error counter is one higher: every gauge and every host error counter is as before, and
  no host is probed.
\<close>

theorem check_node_slots_reference_failure:
  assumes "reference_endpoint config = Some reference_url"
    and "fst (get_slot_number ref reference_url s) = Return PNone"
  shows "check_node_slots py config ref net s =
     (Return (), s\<lparr>requests := requests s @ [POST reference_url],
        REFERENCE_SLOT_NUMBER_ERROR_COUNT := REFERENCE_SLOT_NUMBER_ERROR_COUNT s + 1\<rparr>)"
  using assms by (simp add: check_node_slots_unfold)

text \<open>
  Scenario 2 of the specification: the connection to the reference endpoint fails.
\<close>

theorem check_node_slots_reference_failure_witness:
  "check_node_slots integer_slots (exporter_config [host_a, host_b]) (answering refused) behind_and_ahead counted =
     (Return (), counted\<lparr>requests := [POST ''http://ref:8899''],
        REFERENCE_SLOT_NUMBER_ERROR_COUNT := 1\<rparr>)"
proof -
  have "fst (get_slot_number (answering refused) ''http://ref:8899'' counted) = Return PNone"
    by (simp add: answering_def refused_def get_slot_number_def prog_defs)
  from check_node_slots_reference_failure [of "exporter_config [host_a, host_b]"
      "''http://ref:8899''" "answering refused" counted integer_slots behind_and_ahead, OF _ this]
  show ?thesis
    by (simp add: exporter_config_def fresh_def counted_def)
qed

lemma check_node_failed_probe:
  assumes "h ''rpc_url'' = Some url" "h ''host'' = Some label"
    and "fst (get_slot_number net url t) = Return PNone"
  shows "check_node py reference_slot net h s =
     (Return (), s\<lparr>requests := requests s @ [POST url],
        NODE_SLOT_NUMBER_ERROR_COUNT := labels_inc label (NODE_SLOT_NUMBER_ERROR_COUNT s)\<rparr>)"
proof -
  from assms(3) have "get_slot_number net url s =
      (Return PNone, s\<lparr>requests := requests s @ [POST url]\<rparr>)"
    using get_slot_number_eq [of net url s t] by simp
  with assms(1,2) show ?thesis
    by (simp add: check_node_def subscript_def and_then_Return
        NODE_SLOT_NUMBER_ERROR_COUNT_inc_def)
qed

lemma check_node_slot:
  assumes "h ''rpc_url'' = Some url" "h ''host'' = Some label"
    and "fst (get_slot_number net url t) = Return (PInt v)"
    and "float_of_int v = Return x" and "float_of_int (r - v) = Return d"
  shows "check_node py (PInt r) net h s =
     (Return (), s\<lparr>requests := requests s @ [POST url],
        NODE_SLOT_NUMBER := (NODE_SLOT_NUMBER s)(label \<mapsto> x),
        SLOT_DIFFERENCE := (SLOT_DIFFERENCE s)(label \<mapsto> d)\<rparr>)"
proof -
  from assms(3) have "get_slot_number net url s =
      (Return (PInt v), s\<lparr>requests := requests s @ [POST url]\<rparr>)"
    using get_slot_number_eq [of net url s t] by simp
  with assms(1,2,4,5) show ?thesis
    by (simp add: check_node_def subscript_def gauge_defs py_sub_def
        and_then_def lift_result_def split: option.splits)
qed

lemma check_node_frame:
  assumes "check_node py reference_slot net h s = (res, s')" and "h ''host'' \<noteq> Some l"
  shows "NODE_SLOT_NUMBER s' l = NODE_SLOT_NUMBER s l"
    and "SLOT_DIFFERENCE s' l = SLOT_DIFFERENCE s l"
    and "NODE_SLOT_NUMBER_ERROR_COUNT s' l = NODE_SLOT_NUMBER_ERROR_COUNT s l"
  using assms get_slot_number_snd [of net "the (h ''rpc_url'')" s]
  by (auto simp: check_node_def subscript_def and_then_def lift_result_def gauge_defs
      split: option.splits result.splits prod.splits if_splits)

lemma for_hosts_check_node_frame:
  assumes "for_hosts (\<lambda>i h. check_node py reference_slot (net i) h) k hs s = (res, s')"
    and "Some l \<notin> (\<lambda>h. h ''host'') ` set hs"
  shows "NODE_SLOT_NUMBER s' l = NODE_SLOT_NUMBER s l \<and>
         SLOT_DIFFERENCE s' l = SLOT_DIFFERENCE s l \<and>
         NODE_SLOT_NUMBER_ERROR_COUNT s' l = NODE_SLOT_NUMBER_ERROR_COUNT s l"
  using assms
proof (induction hs arbitrary: k s)
  case Nil
  then show ?case by (simp add: py_return_def)
next
  case (Cons h hs)
  obtain r1 s1 where step: "check_node py reference_slot (net k) h s = (r1, s1)"
    by (cases "check_node py reference_slot (net k) h s")
  from Cons.prems(2) have h: "h ''host'' \<noteq> Some l" and rest: "Some l \<notin> (\<lambda>h. h ''host'') ` set hs"
    by auto
  note fr = check_node_frame [OF step h]
  show ?case
  proof (cases r1)
    case (Return u)
    with Cons.prems(1) step
    have "for_hosts (\<lambda>i h. check_node py reference_slot (net i) h) (Suc k) hs s1 = (res, s')"
      by (simp add: and_then_def)
    from Cons.IH [OF this rest] fr show ?thesis by simp
  next
    case (Raise e)
    with Cons.prems(1) step have "s' = s1" by (simp add: and_then_def)
    with fr show ?thesis by simp
  next
    case Blocked
    with Cons.prems(1) step have "s' = s1" by (simp add: and_then_def)
    with fr show ?thesis by simp
  qed
qed

text \<open>
  The hosts before position \<open>i\<close> have been handled: what the whole cycle then does.
\<close>

lemma check_node_slots_after_prefix:
  assumes "reference_endpoint config = Some reference_url" and "hosts config = Some hs"
    and "i < length hs"
    and "fst (get_slot_number ref reference_url s) = Return reference_slot"
    and "reference_slot \<noteq> PNone"
    and "check_node_slots py (config\<lparr>hosts := Some (take i hs)\<rparr>) ref net s = (Return (), s1)"
  shows "check_node_slots py config ref net s =
     and_then (check_node py reference_slot (net i) (hs ! i))
       (\<lambda>_. for_hosts (\<lambda>i host. check_node py reference_slot (net i) host) (Suc i)
          (drop (Suc i) hs)) s1"
    and "NODE_SLOT_NUMBER s1 l = NODE_SLOT_NUMBER s l \<or> Some l \<in> (\<lambda>h. h ''host'') ` set (take i hs)"
    and "SLOT_DIFFERENCE s1 l = SLOT_DIFFERENCE s l \<or> Some l \<in> (\<lambda>h. h ''host'') ` set (take i hs)"
    and "NODE_SLOT_NUMBER_ERROR_COUNT s1 l = NODE_SLOT_NUMBER_ERROR_COUNT s l
       \<or> Some l \<in> (\<lambda>h. h ''host'') ` set (take i hs)"
proof -
  let ?body = "\<lambda>i host. check_node py reference_slot (net i) host"
  let ?s0 = "s\<lparr>requests := requests s @ [POST reference_url]\<rparr>"
  from assms(1,4,5,6) obtain x where x: "py_float py reference_slot = Return x"
    and pre: "for_hosts ?body 0 (take i hs) (?s0\<lparr>REFERENCE_SLOT_NUMBER := x\<rparr>) = (Return (), s1)"
    by (cases "py_float py reference_slot") (simp_all add: check_node_slots_unfold Let_def)
  have hs: "hs = take i hs @ hs ! i # drop (Suc i) hs"
    using assms(3) by (simp add: id_take_nth_drop)
  from assms(3) have len: "length (take i hs) = i" by simp
  have "check_node_slots py config ref net s = for_hosts ?body 0 hs (?s0\<lparr>REFERENCE_SLOT_NUMBER := x\<rparr>)"
    using assms(1,2,4,5) x by (simp add: check_node_slots_unfold Let_def)
  also have "\<dots> = for_hosts ?body 0 (take i hs @ hs ! i # drop (Suc i) hs)
      (?s0\<lparr>REFERENCE_SLOT_NUMBER := x\<rparr>)"
    using hs by simp
  also have "\<dots> = for_hosts ?body i (hs ! i # drop (Suc i) hs) s1"
    unfolding for_hosts_append using pre len by (simp add: and_then_Return)
  finally show "check_node_slots py config ref net s =
     and_then (check_node py reference_slot (net i) (hs ! i))
       (\<lambda>_. for_hosts ?body (Suc i) (drop (Suc i) hs)) s1"
    by simp
  show "NODE_SLOT_NUMBER s1 l = NODE_SLOT_NUMBER s l \<or> Some l \<in> (\<lambda>h. h ''host'') ` set (take i hs)"
    using for_hosts_check_node_frame [OF pre, of l] by auto
  show "SLOT_DIFFERENCE s1 l = SLOT_DIFFERENCE s l \<or> Some l \<in> (\<lambda>h. h ''host'') ` set (take i hs)"
    using for_hosts_check_node_frame [OF pre, of l] by auto
  show "NODE_SLOT_NUMBER_ERROR_COUNT s1 l = NODE_SLOT_NUMBER_ERROR_COUNT s l
       \<or> Some l \<in> (\<lambda>h. h ''host'') ` set (take i hs)"
    using for_hosts_check_node_frame [OF pre, of l] by auto
qed

lemma distinct_labels_apart:
  assumes "distinct (map (\<lambda>h. h ''host'') hs)" and "i < length hs" and "(hs ! i) ''host'' = Some label"
  shows "Some label \<notin> (\<lambda>h. h ''host'') ` set (take i hs)"
    and "Some label \<notin> (\<lambda>h. h ''host'') ` set (drop (Suc i) hs)"
proof -
  have "hs = take i hs @ hs ! i # drop (Suc i) hs"
    using assms(2) by (simp add: id_take_nth_drop)
  then have "distinct (map (\<lambda>h. h ''host'') (take i hs @ hs ! i # drop (Suc i) hs))"
    using assms(1) by simp
  with assms(3) show "Some label \<notin> (\<lambda>h. h ''host'') ` set (take i hs)"
    and "Some label \<notin> (\<lambda>h. h ''host'') ` set (drop (Suc i) hs)"
    by auto
qed

text \<open>
  C1, as stated, does not hold: a gauge holds \<^verbatim>\<open>float(value)\<close>. With the reference at
  18014398509481987 and host \<open>a\<close> at 9007199254740995 (\<open>2 ^ 53 + 3\<close>), the slot gauge of
  \<open>a\<close> is 9007199254740996; host \<open>b\<close> at 1 has the difference 18014398509481986 and its
  difference gauge is 18014398509481984. With a slot of \<open>2 * 10 ^ 308\<close> the conversion
  raises OverflowError: the cycle ends there, the slot gauge of \<open>a\<close> is the 0 at which
  \<^verbatim>\<open>labels()\<close> created it, and its difference gauge does not exist.
\<close>

theorem check_node_slots_counterexample:
  "NODE_SLOT_NUMBER (snd (check_node_slots integer_slots (exporter_config [host_a, host_b])
       (answering (slot_reply (PInt 18014398509481987))) beyond_53_bits fresh)) ''a''
     = Some (Finite 9007199254740996)
   \<and> SLOT_DIFFERENCE (snd (check_node_slots integer_slots (exporter_config [host_a, host_b])
       (answering (slot_reply (PInt 18014398509481987))) beyond_53_bits fresh)) ''b''
     = Some (Finite 18014398509481984)
   \<and> check_node_slots integer_slots (exporter_config [host_a])
       (answering (slot_reply (PInt 1000))) (\<lambda>_. answering (slot_reply (PInt (2 * 10 ^ 308)))) fresh
     = (Raise OverflowError,
        fresh\<lparr>requests := [POST ''http://ref:8899'', POST ''http://a:8899''],
          REFERENCE_SLOT_NUMBER := Finite 1000, NODE_SLOT_NUMBER := [''a'' \<mapsto> Finite 0]\<rparr>)"
proof -
  have big: "float_of_int (18014398509481987 - 9007199254740995) = Return (Finite 9007199254740992)"
    by (simp add: float_of_int_exact)
  have over: "float_of_int (2 * 10 ^ 308) = Raise OverflowError"
    by (simp add: float_of_int_overflow)
  have one: "float_of_int 1 = Return (Finite 1)"
    using float_of_int_exact [of 1] by simp
  have diff: "float_of_int (18014398509481987 - 1) = Return (Finite 18014398509481984)"
    using float_of_int_ties(3) by simp
  have ref: "float_of_int 1000 = Return (Finite 1000)"
    using float_of_int_exact [of 1000] by simp
  show ?thesis
    using float_of_int_ties big one diff
    apply (intro conjI)
      apply (simp add: check_node_slots_def check_node_def get_slot_number_def py_sub_def
        prog_defs gauge_defs answering_def slot_reply_def rpc_reply_def beyond_53_bits_def
        exporter_config_def host_a_def host_b_def fresh_def)
     apply (simp add: check_node_slots_def check_node_def get_slot_number_def py_sub_def
        prog_defs gauge_defs answering_def slot_reply_def rpc_reply_def beyond_53_bits_def
        exporter_config_def host_a_def host_b_def fresh_def)
    using over ref
    apply (simp add: check_node_slots_def check_node_def get_slot_number_def py_sub_def
        prog_defs gauge_defs answering_def slot_reply_def rpc_reply_def
        exporter_config_def host_a_def fresh_def)
    done
qed

text \<open>
  C1, amended. Let the host labels be distinct, the reference probe yield the integer \<open>r\<close>,
  the hosts before position \<open>i\<close> be handled without an exception, and the probe of the host
  at \<open>i\<close> yield the integer \<open>v\<close>, where \<^verbatim>\<open>float(v)\<close> and \<^verbatim>\<open>float(r - v)\<close> are the doubles \<open>x\<close> and
  \<open>d\<close> (neither raises OverflowError). Then, however the cycle ends after that host, its
  slot gauge is \<open>x\<close> and its difference gauge is \<open>d\<close>; and these are exactly \<open>v\<close> and
  \<open>r - v\<close>, negative differences included, when their magnitudes are at most \<open>2 ^ 53\<close>.
\<close>

theorem check_node_slots_sets_gauges:
  assumes "reference_endpoint config = Some reference_url" and "hosts config = Some hs"
    and "distinct (map (\<lambda>h. h ''host'') hs)" and "i < length hs"
    and "fst (get_slot_number ref reference_url s) = Return (PInt r)"
    and "check_node_slots py (config\<lparr>hosts := Some (take i hs)\<rparr>) ref net s = (Return (), s1)"
    and "(hs ! i) ''rpc_url'' = Some url" and "(hs ! i) ''host'' = Some label"
    and "fst (get_slot_number (net i) url s) = Return (PInt v)"
    and "float_of_int v = Return x" and "float_of_int (r - v) = Return d"
    and "check_node_slots py config ref net s = (res, s')"
  shows "NODE_SLOT_NUMBER s' label = Some x \<and> SLOT_DIFFERENCE s' label = Some d
     \<and> (\<bar>v\<bar> \<le> 2 ^ 53 \<longrightarrow> x = Finite (of_int v))
     \<and> (\<bar>r - v\<bar> \<le> 2 ^ 53 \<longrightarrow> d = Finite (of_int (r - v)))"
proof -
  let ?body = "\<lambda>i host. check_node py (PInt r) (net i) host"
  have step: "check_node py (PInt r) (net i) (hs ! i) s1 =
     (Return (), s1\<lparr>requests := requests s1 @ [POST url],
        NODE_SLOT_NUMBER := (NODE_SLOT_NUMBER s1)(label \<mapsto> x),
        SLOT_DIFFERENCE := (SLOT_DIFFERENCE s1)(label \<mapsto> d)\<rparr>)" (is "_ = (_, ?s2)")
    by (rule check_node_slot [OF assms(7,8,9,10,11)])
  from check_node_slots_after_prefix(1) [OF assms(1,2,4,5) _ assms(6)] assms(12) step
  have rest: "for_hosts ?body (Suc i) (drop (Suc i) hs) ?s2 = (res, s')"
    by (simp add: and_then_Return)
  from for_hosts_check_node_frame [OF rest distinct_labels_apart(2) [OF assms(3,4,8)]]
  have "NODE_SLOT_NUMBER s' label = Some x" "SLOT_DIFFERENCE s' label = Some d"
    by simp_all
  moreover have "x = Finite (of_int v)" if "\<bar>v\<bar> \<le> 2 ^ 53"
    using float_of_int_exact [OF that] assms(10) by simp
  moreover have "d = Finite (of_int (r - v))" if "\<bar>r - v\<bar> \<le> 2 ^ 53"
    using float_of_int_exact [OF that] assms(11) by simp
  ultimately show ?thesis by blast
qed

text \<open>
  Scenario 1 with a second host: reference at 1000, host \<open>b\<close> at 1003, so that the
  difference gauge of \<open>b\<close> is \<open>-3\<close>.
\<close>

theorem check_node_slots_sets_gauges_witness:
  "NODE_SLOT_NUMBER (snd (check_node_slots integer_slots (exporter_config [host_a, host_b])
       (answering (slot_reply (PInt 1000))) behind_and_ahead fresh)) ''b'' = Some (Finite 1003)
   \<and> SLOT_DIFFERENCE (snd (check_node_slots integer_slots (exporter_config [host_a, host_b])
       (answering (slot_reply (PInt 1000))) behind_and_ahead fresh)) ''b'' = Some (Finite (- 3))"
proof -
  let ?cycle = "check_node_slots integer_slots (exporter_config [host_a, host_b]) (answering (slot_reply (PInt 1000))) behind_and_ahead fresh"
  let ?before = "check_node_slots integer_slots
       ((exporter_config [host_a, host_b])\<lparr>hosts := Some (take 1 [host_a, host_b])\<rparr>) (answering (slot_reply (PInt 1000))) behind_and_ahead fresh"
  have cfg: "reference_endpoint (exporter_config [host_a, host_b]) = Some ''http://ref:8899''"
    "hosts (exporter_config [host_a, host_b]) = Some [host_a, host_b]"
    by (simp_all add: exporter_config_def)
  have labels: "distinct (map (\<lambda>h. h ''host'') [host_a, host_b])"
    by (simp add: host_a_def host_b_def)
  have pos: "(1::nat) < length [host_a, host_b]"
    by simp
  have ref: "fst (get_slot_number (answering (slot_reply (PInt 1000))) ''http://ref:8899'' fresh) = Return (PInt 1000)"
    by (simp add: answering_def slot_reply_def rpc_reply_def get_slot_number_def prog_defs)
  have before: "?before = (Return (), snd ?before)"
    by (simp add: answering_def slot_reply_def rpc_reply_def behind_and_ahead_def
        exporter_config_def host_a_def fresh_def check_node_slots_def check_node_def get_slot_number_def py_sub_def prog_defs gauge_defs float_of_int_exact)
  have keys: "([host_a, host_b] ! 1) ''rpc_url'' = Some ''http://b:8899''"
    "([host_a, host_b] ! 1) ''host'' = Some ''b''"
    by (simp_all add: host_b_def)
  have node: "fst (get_slot_number (behind_and_ahead 1) ''http://b:8899'' fresh) = Return (PInt 1003)"
    by (simp add: answering_def slot_reply_def rpc_reply_def behind_and_ahead_def
        get_slot_number_def prog_defs)
  have x: "float_of_int 1003 = Return (Finite 1003)"
    using float_of_int_exact [of 1003] by simp
  have d: "float_of_int (1000 - 1003) = Return (Finite (- 3))"
    using float_of_int_exact [of "- 3"] by simp
  have whole: "?cycle = (fst ?cycle, snd ?cycle)"
    by simp
  from check_node_slots_sets_gauges [OF cfg labels pos ref before keys node x d whole]
  show ?thesis by simp
qed

text \<open>
  C4. Let the host labels be distinct, the reference probe yield a value, and the hosts
  before position \<open>i\<close> be handled without an exception. When the probe of the host at \<open>i\<close>
  yields no value, then, however the cycle ends after that host, its error counter is one
  higher than before the cycle (starting from 0 when the label had none) and its slot gauge
  and difference gauge are what they were before the cycle.
\<close>

theorem check_node_slots_host_failure:
  assumes "reference_endpoint config = Some reference_url" and "hosts config = Some hs"
    and "distinct (map (\<lambda>h. h ''host'') hs)" and "i < length hs"
    and "fst (get_slot_number ref reference_url s) = Return reference_slot"
    and "reference_slot \<noteq> PNone"
    and "check_node_slots py (config\<lparr>hosts := Some (take i hs)\<rparr>) ref net s = (Return (), s1)"
    and "(hs ! i) ''rpc_url'' = Some url" and "(hs ! i) ''host'' = Some label"
    and "fst (get_slot_number (net i) url s) = Return PNone"
    and "check_node_slots py config ref net s = (res, s')"
  shows "NODE_SLOT_NUMBER_ERROR_COUNT s' label =
           Some ((case NODE_SLOT_NUMBER_ERROR_COUNT s label of None \<Rightarrow> 0 | Some n \<Rightarrow> n) + 1)
         \<and> NODE_SLOT_NUMBER s' label = NODE_SLOT_NUMBER s label
         \<and> SLOT_DIFFERENCE s' label = SLOT_DIFFERENCE s label"
proof -
  let ?body = "\<lambda>i host. check_node py reference_slot (net i) host"
  note apart = distinct_labels_apart [OF assms(3,4,9)]
  note pre = check_node_slots_after_prefix [OF assms(1,2,4,5,6,7)]
  from pre(2,3,4) [of label] apart(1)
  have s1: "NODE_SLOT_NUMBER s1 label = NODE_SLOT_NUMBER s label"
    "SLOT_DIFFERENCE s1 label = SLOT_DIFFERENCE s label"
    "NODE_SLOT_NUMBER_ERROR_COUNT s1 label = NODE_SLOT_NUMBER_ERROR_COUNT s label"
    by simp_all
  have step: "check_node py reference_slot (net i) (hs ! i) s1 =
     (Return (), s1\<lparr>requests := requests s1 @ [POST url],
        NODE_SLOT_NUMBER_ERROR_COUNT := labels_inc label (NODE_SLOT_NUMBER_ERROR_COUNT s1)\<rparr>)"
    (is "_ = (_, ?s2)")
    by (rule check_node_failed_probe [OF assms(8,9,10)])
  from pre(1) assms(11) step
  have rest: "for_hosts ?body (Suc i) (drop (Suc i) hs) ?s2 = (res, s')"
    by (simp add: and_then_Return)
  have "NODE_SLOT_NUMBER_ERROR_COUNT ?s2 label =
      Some ((case NODE_SLOT_NUMBER_ERROR_COUNT s label of None \<Rightarrow> 0 | Some n \<Rightarrow> n) + 1)"
    using s1(3) by (simp add: labels_inc_def labels_def split: option.splits)
  moreover have "NODE_SLOT_NUMBER ?s2 label = NODE_SLOT_NUMBER s label"
    "SLOT_DIFFERENCE ?s2 label = SLOT_DIFFERENCE s label"
    using s1(1,2) by simp_all
  ultimately show ?thesis
    using for_hosts_check_node_frame [OF rest apart(2)] by simp
qed

text \<open>
  Host \<open>b\<close>, last seen at 1003 with three errors, does not answer: four errors, gauges kept.
\<close>

theorem check_node_slots_host_failure_witness:
  "NODE_SLOT_NUMBER_ERROR_COUNT (snd (check_node_slots integer_slots (exporter_config [host_a, host_b])
       (answering (slot_reply (PInt 1000))) second_down counted)) ''b'' = Some 4
   \<and> NODE_SLOT_NUMBER (snd (check_node_slots integer_slots (exporter_config [host_a, host_b])
       (answering (slot_reply (PInt 1000))) second_down counted)) ''b'' = Some (Finite 1003)
   \<and> SLOT_DIFFERENCE (snd (check_node_slots integer_slots (exporter_config [host_a, host_b])
       (answering (slot_reply (PInt 1000))) second_down counted)) ''b'' = Some (Finite (- 3))"
proof -
  let ?cycle = "check_node_slots integer_slots (exporter_config [host_a, host_b]) (answering (slot_reply (PInt 1000))) second_down counted"
  let ?before = "check_node_slots integer_slots
       ((exporter_config [host_a, host_b])\<lparr>hosts := Some (take 1 [host_a, host_b])\<rparr>) (answering (slot_reply (PInt 1000))) second_down counted"
  have cfg: "reference_endpoint (exporter_config [host_a, host_b]) = Some ''http://ref:8899''"
    "hosts (exporter_config [host_a, host_b]) = Some [host_a, host_b]"
    by (simp_all add: exporter_config_def)
  have labels: "distinct (map (\<lambda>h. h ''host'') [host_a, host_b])"
    by (simp add: host_a_def host_b_def)
  have pos: "(1::nat) < length [host_a, host_b]"
    by simp
  have ref: "fst (get_slot_number (answering (slot_reply (PInt 1000))) ''http://ref:8899'' counted) = Return (PInt 1000)"
    by (simp add: answering_def slot_reply_def rpc_reply_def get_slot_number_def prog_defs)
  have some: "PInt 1000 \<noteq> PNone"
    by simp
  have before: "?before = (Return (), snd ?before)"
    by (simp add: answering_def slot_reply_def rpc_reply_def second_down_def
        exporter_config_def host_a_def fresh_def counted_def check_node_slots_def check_node_def get_slot_number_def py_sub_def prog_defs gauge_defs float_of_int_exact)
  have keys: "([host_a, host_b] ! 1) ''rpc_url'' = Some ''http://b:8899''"
    "([host_a, host_b] ! 1) ''host'' = Some ''b''"
    by (simp_all add: host_b_def)
  have node: "fst (get_slot_number (second_down 1) ''http://b:8899'' counted) = Return PNone"
    by (simp add: answering_def refused_def second_down_def get_slot_number_def prog_defs)
  have whole: "?cycle = (fst ?cycle, snd ?cycle)"
    by simp
  from check_node_slots_host_failure [OF cfg labels pos ref some before keys node whole]
  show ?thesis by (simp add: counted_def fresh_def)
qed

lemma counters_le_refl: "counters_le s s"
  by (simp add: counters_le_def)

lemma counters_le_trans: "counters_le s t \<Longrightarrow> counters_le t u \<Longrightarrow> counters_le s u"
  unfolding counters_le_def by (meson order_trans)

lemma check_node_counters:
  "counters_le s (snd (check_node py reference_slot net h s))"
  using get_slot_number_snd [of net "the (h ''rpc_url'')" s]
  by (auto simp: counters_le_def check_node_def subscript_def and_then_def lift_result_def gauge_defs
      split: option.splits result.splits prod.splits if_splits)

lemma for_hosts_counters:
  "counters_le s (snd (for_hosts (\<lambda>i h. check_node py reference_slot (net i) h) k hs s))"
proof (induction hs arbitrary: k s)
  case Nil
  show ?case by (simp add: py_return_def counters_le_refl)
next
  case (Cons h hs)
  obtain r1 s1 where step: "check_node py reference_slot (net k) h s = (r1, s1)"
    by (cases "check_node py reference_slot (net k) h s")
  from check_node_counters [of s py reference_slot "net k" h] step have le: "counters_le s s1"
    by simp
  show ?case
  proof (cases r1)
    case (Return u)
    with step have "for_hosts (\<lambda>i h. check_node py reference_slot (net i) h) k (h # hs) s =
        for_hosts (\<lambda>i h. check_node py reference_slot (net i) h) (Suc k) hs s1"
      by (simp add: and_then_def)
    with Cons.IH [of s1 "Suc k"] le show ?thesis
      by (auto intro: counters_le_trans)
  next
    case (Raise e)
    with step le show ?thesis by (simp add: and_then_def)
  next
    case Blocked
    with step le show ?thesis by (simp add: and_then_def)
  qed
qed

lemma check_node_slots_counters:
  "counters_le s (snd (check_node_slots py config ref net s))"
proof (cases "reference_endpoint config")
  case None
  then show ?thesis
    by (simp add: check_node_slots_def subscript_def lift_result_def and_then_def counters_le_refl)
next
  case (Some url)
  let ?s0 = "s\<lparr>requests := requests s @ [POST url]\<rparr>"
  have le0: "counters_le s ?s0" by (simp add: counters_le_def)
  have le1: "counters_le s (?s0\<lparr>REFERENCE_SLOT_NUMBER := x\<rparr>)" for x
    by (simp add: counters_le_def)
  have le2: "counters_le s (?s0\<lparr>REFERENCE_SLOT_NUMBER_ERROR_COUNT :=
      REFERENCE_SLOT_NUMBER_ERROR_COUNT ?s0 + 1\<rparr>)"
    by (simp add: counters_le_def)
  have loop: "counters_le s (snd (for_hosts (\<lambda>i h. check_node py v (net i) h) 0 hs
      (?s0\<lparr>REFERENCE_SLOT_NUMBER := x\<rparr>)))" for v hs x
    using for_hosts_counters [of "?s0\<lparr>REFERENCE_SLOT_NUMBER := x\<rparr>" py v net 0 hs] le1 [of x]
    by (rule counters_le_trans [rotated])
  show ?thesis
    unfolding check_node_slots_unfold [OF Some] Let_def
    using le0 le1 le2 loop
    by (auto split: result.splits option.splits)
qed

text \<open>
  C9. Whatever the configuration, the network and the state, and whether the cycle returns
  or not, the reference error counter after a cycle is at least what it was, and every host
  error counter that existed still exists with a value at least as large.
\<close>

theorem error_counters_never_decrease:
  "REFERENCE_SLOT_NUMBER_ERROR_COUNT s
     \<le> REFERENCE_SLOT_NUMBER_ERROR_COUNT (snd (check_node_slots py config ref net s))
   \<and> (\<forall>l n. NODE_SLOT_NUMBER_ERROR_COUNT s l = Some n \<longrightarrow>
        (\<exists>n'. NODE_SLOT_NUMBER_ERROR_COUNT (snd (check_node_slots py config ref net s)) l = Some n'
           \<and> n \<le> n'))"
  using check_node_slots_counters [of s py config ref net] by (simp add: counters_le_def)

text \<open>
  The counter of \<open>b\<close>, at 3 before a cycle.
\<close>

theorem error_counters_never_decrease_witness:
  "REFERENCE_SLOT_NUMBER_ERROR_COUNT counted
     \<le> REFERENCE_SLOT_NUMBER_ERROR_COUNT (snd (check_node_slots integer_slots (exporter_config [host_a, host_b])
          (answering (slot_reply (PInt 1000))) second_down counted))
   \<and> (\<exists>n'. NODE_SLOT_NUMBER_ERROR_COUNT (snd (check_node_slots integer_slots (exporter_config [host_a, host_b])
          (answering (slot_reply (PInt 1000))) second_down counted)) ''b'' = Some n' \<and> 3 \<le> n')"
proof -
  have "NODE_SLOT_NUMBER_ERROR_COUNT counted ''b'' = Some 3"
    by (simp add: counted_def fresh_def)
  with error_counters_never_decrease [of counted integer_slots "exporter_config [host_a, host_b]"
      "answering (slot_reply (PInt 1000))" second_down]
  show ?thesis by blast
qed

lemma eff_then_eff: "eff (then_eff a b) x = eff b (eff a x)"
  by (cases a; cases b; cases x) simp_all

lemma eff_idem: "eff e (eff e x) = eff e x"
  by (cases e; cases x) simp_all

lemma apply_effects_Keep: "apply_effects (\<lambda>_. Keep) m = m"
  by (simp add: apply_effects_def)

lemma apply_effects_then:
  "apply_effects E' (apply_effects E m) = apply_effects (\<lambda>l. then_eff (E l) (E' l)) m"
  by (simp add: apply_effects_def eff_then_eff)

lemma apply_effects_idem: "apply_effects E (apply_effects E m) = apply_effects E m"
  by (simp add: apply_effects_def eff_idem)

lemma labels_effect: "labels (Finite 0) m l = apply_effects ((\<lambda>_. Keep)(l := Touch)) m"
  by (rule ext) (simp add: labels_def apply_effects_def split: option.splits)

lemma put_effect: "m(l \<mapsto> x) = apply_effects ((\<lambda>_. Keep)(l := Put x)) m"
  by (rule ext) (simp add: apply_effects_def)

lemma check_node_int_form:
  assumes "h ''rpc_url'' = Some url" "h ''host'' = Some label"
    and "fst (get_slot_number net url t) = Return (PInt v)"
  shows "\<exists>EN ED res. \<forall>s. check_node py (PInt r) net h s =
     (res, s\<lparr>requests := requests s @ [POST url],
        NODE_SLOT_NUMBER := apply_effects EN (NODE_SLOT_NUMBER s),
        SLOT_DIFFERENCE := apply_effects ED (SLOT_DIFFERENCE s)\<rparr>)"
proof -
  have probe: "get_slot_number net url s =
      (Return (PInt v), s\<lparr>requests := requests s @ [POST url]\<rparr>)" for s :: exporter
    using get_slot_number_eq [of net url s t] assms(3) by simp
  show ?thesis
  proof (cases "float_of_int v")
    case (Return x)
    show ?thesis
    proof (cases "float_of_int (r - v)")
      case d: (Return d)
      have "\<forall>s. check_node py (PInt r) net h s =
         (Return (), s\<lparr>requests := requests s @ [POST url],
            NODE_SLOT_NUMBER := apply_effects ((\<lambda>_. Keep)(label := Put x)) (NODE_SLOT_NUMBER s),
            SLOT_DIFFERENCE := apply_effects ((\<lambda>_. Keep)(label := Put d)) (SLOT_DIFFERENCE s)\<rparr>)"
        using check_node_slot [OF assms Return d, of py] by (simp add: put_effect)
      then show ?thesis by blast
    next
      case e: (Raise e)
      have "\<forall>s. check_node py (PInt r) net h s =
         (Raise e, s\<lparr>requests := requests s @ [POST url],
            NODE_SLOT_NUMBER := apply_effects ((\<lambda>_. Keep)(label := Put x)) (NODE_SLOT_NUMBER s),
            SLOT_DIFFERENCE := apply_effects ((\<lambda>_. Keep)(label := Touch)) (SLOT_DIFFERENCE s)\<rparr>)"
        using assms(1,2) probe Return e
        by (simp add: check_node_def subscript_def and_then_def lift_result_def
            NODE_SLOT_NUMBER_set_def SLOT_DIFFERENCE_set_def labels_set_def py_sub_def
            labels_effect [symmetric] put_effect [symmetric])
          (simp add: labels_def split: option.splits)
      then show ?thesis by blast
    next
      case b: Blocked
      have "\<forall>s. check_node py (PInt r) net h s =
         (Blocked, s\<lparr>requests := requests s @ [POST url],
            NODE_SLOT_NUMBER := apply_effects ((\<lambda>_. Keep)(label := Put x)) (NODE_SLOT_NUMBER s),
            SLOT_DIFFERENCE := apply_effects ((\<lambda>_. Keep)(label := Touch)) (SLOT_DIFFERENCE s)\<rparr>)"
        using assms(1,2) probe Return b
        by (simp add: check_node_def subscript_def and_then_def lift_result_def
            NODE_SLOT_NUMBER_set_def SLOT_DIFFERENCE_set_def labels_set_def py_sub_def
            labels_effect [symmetric] put_effect [symmetric])
          (simp add: labels_def split: option.splits)
      then show ?thesis by blast
    qed
  next
    case (Raise e)
    have "\<forall>s. check_node py (PInt r) net h s =
       (Raise e, s\<lparr>requests := requests s @ [POST url],
          NODE_SLOT_NUMBER := apply_effects ((\<lambda>_. Keep)(label := Touch)) (NODE_SLOT_NUMBER s),
          SLOT_DIFFERENCE := apply_effects (\<lambda>_. Keep) (SLOT_DIFFERENCE s)\<rparr>)"
      using assms(1,2) probe Raise
      by (simp add: check_node_def subscript_def and_then_def lift_result_def
          NODE_SLOT_NUMBER_set_def labels_set_def apply_effects_Keep labels_effect [symmetric])
    then show ?thesis by blast
  next
    case Blocked
    have "\<forall>s. check_node py (PInt r) net h s =
       (Blocked, s\<lparr>requests := requests s @ [POST url],
          NODE_SLOT_NUMBER := apply_effects ((\<lambda>_. Keep)(label := Touch)) (NODE_SLOT_NUMBER s),
          SLOT_DIFFERENCE := apply_effects (\<lambda>_. Keep) (SLOT_DIFFERENCE s)\<rparr>)"
      using assms(1,2) probe Blocked
      by (simp add: check_node_def subscript_def and_then_def lift_result_def
          NODE_SLOT_NUMBER_set_def labels_set_def apply_effects_Keep labels_effect [symmetric])
    then show ?thesis by blast
  qed
qed

lemma for_hosts_int_form:
  assumes "\<forall>i<length hs. \<exists>url label v. (hs ! i) ''rpc_url'' = Some url \<and>
      (hs ! i) ''host'' = Some label \<and> fst (get_slot_number (net (k + i)) url t) = Return (PInt v)"
  shows "\<exists>EN ED R res. \<forall>s. for_hosts (\<lambda>i h. check_node py (PInt r) (net i) h) k hs s =
     (res, s\<lparr>requests := requests s @ R,
        NODE_SLOT_NUMBER := apply_effects EN (NODE_SLOT_NUMBER s),
        SLOT_DIFFERENCE := apply_effects ED (SLOT_DIFFERENCE s)\<rparr>)"
  using assms
proof (induction hs arbitrary: k)
  case Nil
  have "\<forall>s. for_hosts (\<lambda>i h. check_node py (PInt r) (net i) h) k [] s =
     (Return (), s\<lparr>requests := requests s @ [],
        NODE_SLOT_NUMBER := apply_effects (\<lambda>_. Keep) (NODE_SLOT_NUMBER s),
        SLOT_DIFFERENCE := apply_effects (\<lambda>_. Keep) (SLOT_DIFFERENCE s)\<rparr>)"
    by (simp add: py_return_def apply_effects_Keep)
  then show ?case by blast
next
  case (Cons h hs)
  from Cons.prems [THEN spec, of 0] obtain url label v where
    h: "h ''rpc_url'' = Some url" "h ''host'' = Some label"
       "fst (get_slot_number (net k) url t) = Return (PInt v)"
    by auto
  from check_node_int_form [OF h, of py r] obtain EN ED res where
    head: "\<And>s. check_node py (PInt r) (net k) h s =
     (res, s\<lparr>requests := requests s @ [POST url],
        NODE_SLOT_NUMBER := apply_effects EN (NODE_SLOT_NUMBER s),
        SLOT_DIFFERENCE := apply_effects ED (SLOT_DIFFERENCE s)\<rparr>)"
    by blast
  show ?case
  proof (cases "res = Return ()")
    case False
    then have "\<forall>s. for_hosts (\<lambda>i h. check_node py (PInt r) (net i) h) k (h # hs) s =
       (res, s\<lparr>requests := requests s @ [POST url],
          NODE_SLOT_NUMBER := apply_effects EN (NODE_SLOT_NUMBER s),
          SLOT_DIFFERENCE := apply_effects ED (SLOT_DIFFERENCE s)\<rparr>)"
      by (cases res) (simp_all add: and_then_def head)
    then show ?thesis by blast
  next
    case True
    have "\<forall>i<length hs. \<exists>url label v. (hs ! i) ''rpc_url'' = Some url \<and>
        (hs ! i) ''host'' = Some label \<and>
        fst (get_slot_number (net (Suc k + i)) url t) = Return (PInt v)"
    proof (intro allI impI)
      fix i assume "i < length hs"
      with Cons.prems [THEN spec, of "Suc i"]
      show "\<exists>url label v. (hs ! i) ''rpc_url'' = Some url \<and>
        (hs ! i) ''host'' = Some label \<and>
        fst (get_slot_number (net (Suc k + i)) url t) = Return (PInt v)"
        by simp
    qed
    from Cons.IH [OF this] obtain EN' ED' R res' where
      tail: "\<And>s. for_hosts (\<lambda>i h. check_node py (PInt r) (net i) h) (Suc k) hs s =
       (res', s\<lparr>requests := requests s @ R,
          NODE_SLOT_NUMBER := apply_effects EN' (NODE_SLOT_NUMBER s),
          SLOT_DIFFERENCE := apply_effects ED' (SLOT_DIFFERENCE s)\<rparr>)"
      by blast
    have "\<forall>s. for_hosts (\<lambda>i h. check_node py (PInt r) (net i) h) k (h # hs) s =
       (res', s\<lparr>requests := requests s @ (POST url # R),
          NODE_SLOT_NUMBER := apply_effects (\<lambda>l. then_eff (EN l) (EN' l)) (NODE_SLOT_NUMBER s),
          SLOT_DIFFERENCE := apply_effects (\<lambda>l. then_eff (ED l) (ED' l)) (SLOT_DIFFERENCE s)\<rparr>)"
      using True by (simp add: and_then_def head tail apply_effects_then)
    then show ?thesis by blast
  qed
qed

text \<open>
  C8. When the reference probe and the probe of every host yield integers, a second cycle
  with the same probe results, run from the state the first cycle left, leaves the three
  gauges and the two error counters as the first cycle left them.
\<close>

theorem check_node_slots_idempotent:
  assumes "reference_endpoint config = Some reference_url" and "hosts config = Some hs"
    and "fst (get_slot_number ref reference_url s) = Return (PInt r)"
    and "\<forall>i<length hs. \<exists>url label v. (hs ! i) ''rpc_url'' = Some url \<and>
      (hs ! i) ''host'' = Some label \<and> fst (get_slot_number (net i) url s) = Return (PInt v)"
  shows "let once = snd (check_node_slots py config ref net s);
             twice = snd (check_node_slots py config ref net once)
         in NODE_SLOT_NUMBER twice = NODE_SLOT_NUMBER once
          \<and> REFERENCE_SLOT_NUMBER twice = REFERENCE_SLOT_NUMBER once
          \<and> SLOT_DIFFERENCE twice = SLOT_DIFFERENCE once
          \<and> NODE_SLOT_NUMBER_ERROR_COUNT twice = NODE_SLOT_NUMBER_ERROR_COUNT once
          \<and> REFERENCE_SLOT_NUMBER_ERROR_COUNT twice = REFERENCE_SLOT_NUMBER_ERROR_COUNT once"
proof -
  have ref: "fst (get_slot_number ref reference_url u) = Return (PInt r)" for u :: exporter
    using get_slot_number_fst [of ref reference_url u s] assms(3) by simp
  show ?thesis
  proof (cases "float_of_int r")
    case (Return x)
    from assms(4) have "\<forall>i<length hs. \<exists>url label v. (hs ! i) ''rpc_url'' = Some url \<and>
        (hs ! i) ''host'' = Some label \<and>
        fst (get_slot_number (net (0 + i)) url s) = Return (PInt v)"
      by simp
    from for_hosts_int_form [OF this, of py r] obtain EN ED R res where
      loop: "\<And>s. for_hosts (\<lambda>i h. check_node py (PInt r) (net i) h) 0 hs s =
       (res, s\<lparr>requests := requests s @ R,
          NODE_SLOT_NUMBER := apply_effects EN (NODE_SLOT_NUMBER s),
          SLOT_DIFFERENCE := apply_effects ED (SLOT_DIFFERENCE s)\<rparr>)"
      by blast
    have cycle: "snd (check_node_slots py config ref net u) =
        u\<lparr>requests := requests u @ POST reference_url # R, REFERENCE_SLOT_NUMBER := x,
          NODE_SLOT_NUMBER := apply_effects EN (NODE_SLOT_NUMBER u),
          SLOT_DIFFERENCE := apply_effects ED (SLOT_DIFFERENCE u)\<rparr>" for u
      using assms(1,2) ref [of u] Return
      by (simp add: check_node_slots_unfold Let_def loop)
    show ?thesis
      by (simp add: Let_def cycle apply_effects_idem)
  next
    case (Raise e)
    have cycle: "snd (check_node_slots py config ref net u) =
        u\<lparr>requests := requests u @ [POST reference_url]\<rparr>" for u
      using assms(1,2) ref [of u] Raise
      by (simp add: check_node_slots_unfold Let_def)
    show ?thesis
      by (simp add: Let_def cycle)
  next
    case Blocked
    have cycle: "snd (check_node_slots py config ref net u) =
        u\<lparr>requests := requests u @ [POST reference_url]\<rparr>" for u
      using assms(1,2) ref [of u] Blocked
      by (simp add: check_node_slots_unfold Let_def)
    show ?thesis
      by (simp add: Let_def cycle)
  qed
qed

text \<open>
  Two cycles with reference 1000, \<open>a\<close> at 998 and \<open>b\<close> at 1003: the values of one cycle, and
  the three earlier errors of \<open>b\<close> not counted again.
\<close>

theorem check_node_slots_idempotent_witness:
  "NODE_SLOT_NUMBER (snd (check_node_slots integer_slots (exporter_config [host_a, host_b])
      (answering (slot_reply (PInt 1000))) behind_and_ahead
      (snd (check_node_slots integer_slots (exporter_config [host_a, host_b])
         (answering (slot_reply (PInt 1000))) behind_and_ahead counted))))
     = [''a'' \<mapsto> Finite 998, ''b'' \<mapsto> Finite 1003]
   \<and> SLOT_DIFFERENCE (snd (check_node_slots integer_slots (exporter_config [host_a, host_b])
      (answering (slot_reply (PInt 1000))) behind_and_ahead
      (snd (check_node_slots integer_slots (exporter_config [host_a, host_b])
         (answering (slot_reply (PInt 1000))) behind_and_ahead counted))))
     = [''a'' \<mapsto> Finite 2, ''b'' \<mapsto> Finite (- 3)]
   \<and> NODE_SLOT_NUMBER_ERROR_COUNT (snd (check_node_slots integer_slots (exporter_config [host_a, host_b])
      (answering (slot_reply (PInt 1000))) behind_and_ahead
      (snd (check_node_slots integer_slots (exporter_config [host_a, host_b])
         (answering (slot_reply (PInt 1000))) behind_and_ahead counted))))
     = [''b'' \<mapsto> 3]"
proof -
  let ?once = "snd (check_node_slots integer_slots (exporter_config [host_a, host_b])
         (answering (slot_reply (PInt 1000))) behind_and_ahead counted)"
  let ?twice = "snd (check_node_slots integer_slots (exporter_config [host_a, host_b])
         (answering (slot_reply (PInt 1000))) behind_and_ahead ?once)"
  have cfg: "reference_endpoint (exporter_config [host_a, host_b]) = Some ''http://ref:8899''"
    "hosts (exporter_config [host_a, host_b]) = Some [host_a, host_b]"
    by (simp_all add: exporter_config_def)
  have ref: "fst (get_slot_number (answering (slot_reply (PInt 1000))) ''http://ref:8899'' counted) = Return (PInt 1000)"
    by (simp add: answering_def slot_reply_def rpc_reply_def get_slot_number_def prog_defs)
  have nodes: "\<forall>i<length [host_a, host_b]. \<exists>url label v. ([host_a, host_b] ! i) ''rpc_url'' = Some url \<and>
      ([host_a, host_b] ! i) ''host'' = Some label \<and>
      fst (get_slot_number (behind_and_ahead i) url counted) = Return (PInt v)"
    by (simp add: answering_def host_a_def host_b_def slot_reply_def rpc_reply_def
        behind_and_ahead_def get_slot_number_def prog_defs less_Suc_eq)
  have once: "NODE_SLOT_NUMBER ?once = [''a'' \<mapsto> Finite 998, ''b'' \<mapsto> Finite 1003]"
    "SLOT_DIFFERENCE ?once = [''a'' \<mapsto> Finite 2, ''b'' \<mapsto> Finite (- 3)]"
    "NODE_SLOT_NUMBER_ERROR_COUNT ?once = [''b'' \<mapsto> 3]"
    by (simp_all add: answering_def host_a_def host_b_def slot_reply_def rpc_reply_def
        behind_and_ahead_def exporter_config_def fresh_def counted_def check_node_slots_def check_node_def get_slot_number_def py_sub_def prog_defs gauge_defs float_of_int_exact)
  from check_node_slots_idempotent [OF cfg ref nodes, of integer_slots]
  have same: "NODE_SLOT_NUMBER ?twice = NODE_SLOT_NUMBER ?once"
    "SLOT_DIFFERENCE ?twice = SLOT_DIFFERENCE ?once"
    "NODE_SLOT_NUMBER_ERROR_COUNT ?twice = NODE_SLOT_NUMBER_ERROR_COUNT ?once"
    by (simp_all add: Let_def)
  show ?thesis
    unfolding same once by simp
qed

section \<open>The loops keep running\<close>

lemma job_body_Returns:
  assumes "h ''rpc_url'' = Some url" "h ''host'' = Some label" "h ''heartbeat_endpoint'' = Some ep"
    and "object_or_absorbed (net (POST url))" and "get_absorbed (net (GET ep))"
  shows "\<exists>s'. job_body net h s = (Return (), s') \<and> probed (requests s') = probed (requests s) @ [url]"
proof -
  from check_rpc_call_object [of h url label net s] assms(1,2,4) obtain b where
    "check_rpc_call net h s = (Return b, s\<lparr>requests := requests s @ [POST url]\<rparr>)"
    by blast
  with assms(3,5) show ?thesis
    by (cases b) (simp_all add: job_body_def and_then_Return subscript_def
        send_heartbeat_absorbs py_return_def probed_append)
qed

lemma for_hosts_job_body_Returns:
  assumes "\<forall>h\<in>set hs. h ''rpc_url'' \<noteq> None \<and> h ''host'' \<noteq> None \<and> h ''heartbeat_endpoint'' \<noteq> None"
    and "\<forall>i url. object_or_absorbed (net i (POST url))"
    and "\<forall>i url. get_absorbed (net i (GET url))"
  shows "\<exists>s'. for_hosts (\<lambda>i h. job_body (net i) h) k hs s = (Return (), s') \<and>
     probed (requests s') = probed (requests s) @ rpc_urls hs"
  using assms(1)
proof (induction hs arbitrary: k s)
  case Nil
  show ?case by (simp add: py_return_def rpc_urls_def)
next
  case (Cons h hs)
  then obtain url label ep where
    h: "h ''rpc_url'' = Some url" "h ''host'' = Some label" "h ''heartbeat_endpoint'' = Some ep"
    by auto
  from assms(2,3) have "object_or_absorbed (net k (POST url))" "get_absorbed (net k (GET ep))"
    by simp_all
  from job_body_Returns [of h url label ep "net k" s] h this obtain s1 where
    s1: "job_body (net k) h s = (Return (), s1)" "probed (requests s1) = probed (requests s) @ [url]"
    by blast
  from Cons.prems have "\<forall>h\<in>set hs. h ''rpc_url'' \<noteq> None \<and> h ''host'' \<noteq> None \<and> h ''heartbeat_endpoint'' \<noteq> None"
    by simp
  from Cons.IH [OF this, of "Suc k" s1] obtain s' where
    "for_hosts (\<lambda>i h. job_body (net i) h) (Suc k) hs s1 = (Return (), s')"
    "probed (requests s') = probed (requests s1) @ rpc_urls hs"
    by blast
  with s1 h(1) show ?case
    by (simp add: and_then_Return rpc_urls_def)
qed

lemma job_Returns:
  assumes "hosts config = Some hs"
    and "\<forall>h\<in>set hs. h ''rpc_url'' \<noteq> None \<and> h ''host'' \<noteq> None \<and> h ''heartbeat_endpoint'' \<noteq> None"
    and "\<forall>i url. object_or_absorbed (net i (POST url))"
    and "\<forall>i url. get_absorbed (net i (GET url))"
  shows "\<exists>s'. job config net s = (Return (), s') \<and>
     probed (requests s') = probed (requests s) @ rpc_urls hs"
  using for_hosts_job_body_Returns [of hs net 0 s] assms
  by (simp add: job_def subscript_def)

lemma heartbeat_main_Looping:
  assumes "hosts config = Some hs"
    and "\<forall>h\<in>set hs. h ''rpc_url'' \<noteq> None \<and> h ''host'' \<noteq> None \<and> h ''heartbeat_endpoint'' \<noteq> None"
    and "\<forall>c i url. object_or_absorbed (net c i (POST url))"
    and "\<forall>c i url. get_absorbed (net c i (GET url))"
  shows "fst (heartbeat_main fuel config net s) = Looping \<and>
     probed (requests (snd (heartbeat_main fuel config net s))) =
       probed (requests s) @ concat (replicate (Suc fuel) (rpc_urls hs))"
proof -
  have cyc: "\<exists>s'. job config (net c) s = (Return (), s') \<and>
      probed (requests s') = probed (requests s) @ rpc_urls hs" for c and s :: "'a io_scheme"
    using job_Returns [of config hs "net c" s] assms by simp
  from cyc [of 0 s] obtain s0 where
    s0: "job config (net 0) s = (Return (), s0)"
      "probed (requests s0) = probed (requests s) @ rpc_urls hs"
    by blast
  have step: "\<exists>s'. job config (net (Suc c)) s = (Return (), s') \<and>
      (probed \<circ> requests) s' = (probed \<circ> requests) s @ (\<lambda>_. rpc_urls hs) c"
    for c and s :: "'a io_scheme"
    using cyc [of "Suc c" s] by simp
  from forever_Looping [of "\<lambda>c. job config (net (Suc c))" "probed \<circ> requests"
      "\<lambda>_. rpc_urls hs" fuel 0 s0, OF step]
  have "fst (forever fuel (\<lambda>c. job config (net (Suc c))) 0 s0) = Looping"
    "probed (requests (snd (forever fuel (\<lambda>c. job config (net (Suc c))) 0 s0))) =
       probed (requests s0) @ concat (replicate fuel (rpc_urls hs))"
    by (simp_all add: map_replicate_const)
  with s0 show ?thesis
    by (simp add: heartbeat_main_def)
qed

lemma get_slot_number_slot:
  assumes "slot_or_absorbed (net (POST url))"
  shows "\<exists>v. fst (get_slot_number net url s) = Return v \<and> is_slot v"
  using assms
  by (auto simp: slot_or_absorbed_def get_slot_number_full is_slot_def is_dict_def
      split: reply.splits sum.splits result.splits pyval.splits if_splits)

lemma is_slot_float:
  assumes "is_slot v" and "v \<noteq> PNone"
  shows "\<exists>x. py_float py v = Return x"
proof (cases v)
  case (PInt i)
  with assms(1) have "\<bar>i\<bar> < 2 ^ 1022" by (simp add: is_slot_def)
  moreover have "(2::int) ^ 1022 < 2 ^ 1023" by simp
  ultimately have "\<bar>i\<bar> < 2 ^ 1023" by linarith
  from float_of_int_bounded [OF this] PInt show ?thesis by simp
qed (use assms in \<open>simp_all add: is_slot_def\<close>)

lemma is_slot_as_float:
  assumes "is_slot v" and "v \<noteq> PNone"
  shows "\<exists>x. as_float v = Return x"
proof (cases v)
  case (PInt i)
  with assms(1) have "\<bar>i\<bar> < 2 ^ 1022" by (simp add: is_slot_def)
  moreover have "(2::int) ^ 1022 < 2 ^ 1023" by simp
  ultimately have "\<bar>i\<bar> < 2 ^ 1023" by linarith
  from float_of_int_bounded [OF this] PInt show ?thesis by simp
qed (use assms in \<open>simp_all add: is_slot_def\<close>)

lemma is_slot_as_int:
  assumes "is_slot v" and "as_int v = Some i"
  shows "\<bar>i\<bar> < 2 ^ 1022"
  using assms by (cases v) (auto simp: is_slot_def)

lemma is_slot_sub:
  assumes "is_slot a" "a \<noteq> PNone" "is_slot b" "b \<noteq> PNone"
  shows "\<exists>d x. py_sub py a b = Return d \<and> py_float py d = Return x"
proof (cases "as_int a")
  case None
  from is_slot_as_float [OF assms(1,2)] is_slot_as_float [OF assms(3,4)] obtain x y where
    "as_float a = Return x" "as_float b = Return y" by blast
  with None show ?thesis by (simp add: py_sub_def)
next
  case a: (Some i)
  show ?thesis
  proof (cases "as_int b")
    case None
    from is_slot_as_float [OF assms(1,2)] is_slot_as_float [OF assms(3,4)] obtain x y where
      "as_float a = Return x" "as_float b = Return y" by blast
    with None a show ?thesis by (simp add: py_sub_def)
  next
    case (Some j)
    from is_slot_as_int [OF assms(1) a] is_slot_as_int [OF assms(3) Some]
    have "\<bar>i\<bar> < 2 ^ 1022" "\<bar>j\<bar> < 2 ^ 1022" .
    moreover have "(2::int) ^ 1022 + 2 ^ 1022 = 2 ^ 1023" by simp
    ultimately have "\<bar>i - j\<bar> < 2 ^ 1023" by linarith
    from float_of_int_bounded [OF this] a Some show ?thesis by (simp add: py_sub_def)
  qed
qed

lemma check_node_Returns:
  assumes "is_slot reference_slot" "reference_slot \<noteq> PNone"
    and "h ''rpc_url'' = Some url" "h ''host'' = Some label"
    and "slot_or_absorbed (net (POST url))"
  shows "\<exists>s'. check_node py reference_slot net h s = (Return (), s') \<and>
     requests s' = requests s @ [POST url]"
proof -
  from get_slot_number_slot [of net url s] assms(5) obtain v where
    v: "fst (get_slot_number net url s) = Return v" "is_slot v"
    by blast
  show ?thesis
  proof (cases "v = PNone")
    case True
    with v(1) check_node_failed_probe [OF assms(3,4), of net s py reference_slot s]
    show ?thesis by simp
  next
    case False
    from is_slot_float [OF v(2) False, of py] obtain x where x: "py_float py v = Return x"
      by blast
    from is_slot_sub [OF assms(1,2) v(2) False, of py] obtain d y where
      d: "py_sub py reference_slot v = Return d" "py_float py d = Return y"
      by blast
    from v(1) have "get_slot_number net url s = (Return v, s\<lparr>requests := requests s @ [POST url]\<rparr>)"
      using get_slot_number_eq [of net url s s] by simp
    with assms(3,4) False x d show ?thesis
      by (simp add: check_node_def subscript_def and_then_def lift_result_def
          NODE_SLOT_NUMBER_set_def SLOT_DIFFERENCE_set_def labels_set_def)
  qed
qed

lemma for_hosts_check_node_Returns:
  assumes "is_slot reference_slot" "reference_slot \<noteq> PNone"
    and "\<forall>h\<in>set hs. h ''rpc_url'' \<noteq> None \<and> h ''host'' \<noteq> None"
    and "\<forall>i url. slot_or_absorbed (net i (POST url))"
  shows "\<exists>s'. for_hosts (\<lambda>i h. check_node py reference_slot (net i) h) k hs s = (Return (), s') \<and>
     probed (requests s') = probed (requests s) @ rpc_urls hs"
  using assms(3)
proof (induction hs arbitrary: k s)
  case Nil
  show ?case by (simp add: py_return_def rpc_urls_def)
next
  case (Cons h hs)
  then obtain url label where h: "h ''rpc_url'' = Some url" "h ''host'' = Some label"
    by auto
  from assms(4) have "slot_or_absorbed (net k (POST url))" by simp
  from check_node_Returns [of reference_slot h url label "net k" py s] assms(1,2) h this
  obtain s1 where
    s1: "check_node py reference_slot (net k) h s = (Return (), s1)"
      "requests s1 = requests s @ [POST url]"
    by blast
  from Cons.prems have "\<forall>h\<in>set hs. h ''rpc_url'' \<noteq> None \<and> h ''host'' \<noteq> None"
    by simp
  from Cons.IH [OF this, of "Suc k" s1] obtain s' where
    "for_hosts (\<lambda>i h. check_node py reference_slot (net i) h) (Suc k) hs s1 = (Return (), s')"
    "probed (requests s') = probed (requests s1) @ rpc_urls hs"
    by blast
  with s1 h(1) show ?case
    by (simp add: and_then_Return rpc_urls_def probed_append)
qed

lemma check_node_slots_Returns:
  assumes "reference_endpoint config = Some reference_url" and "hosts config = Some hs"
    and "\<forall>h\<in>set hs. h ''rpc_url'' \<noteq> None \<and> h ''host'' \<noteq> None"
    and "slot_or_absorbed (ref (POST reference_url))"
    and "\<forall>i url. slot_or_absorbed (net i (POST url))"
  shows "\<exists>s'. check_node_slots py config ref net s = (Return (), s') \<and>
     probed (requests s') = probed (requests s) @ cycle_probes ref reference_url hs"
proof -
  from get_slot_number_slot [of ref reference_url s] assms(4) obtain v where
    v: "fst (get_slot_number ref reference_url s) = Return v" "is_slot v"
    by blast
  then have vi: "fst (get_slot_number ref reference_url idle) = Return v"
    using get_slot_number_fst [of ref reference_url idle s] by simp
  let ?s0 = "s\<lparr>requests := requests s @ [POST reference_url]\<rparr>"
  show ?thesis
  proof (cases "v = PNone")
    case True
    with v(1) assms(1) vi show ?thesis
      by (simp add: check_node_slots_unfold cycle_probes_def probed_append)
  next
    case False
    from is_slot_float [OF v(2) False, of py] obtain x where x: "py_float py v = Return x"
      by blast
    let ?s1 = "?s0\<lparr>REFERENCE_SLOT_NUMBER := x\<rparr>"
    from v(1) assms(1,2) False x
    have "check_node_slots py config ref net s =
        for_hosts (\<lambda>i host. check_node py v (net i) host) 0 hs ?s1"
      by (simp add: check_node_slots_unfold)
    with for_hosts_check_node_Returns [OF v(2) False assms(3,5), of py 0 ?s1] False vi
    show ?thesis
      by (auto simp: cycle_probes_def probed_append)
  qed
qed

lemma exporter_main_Looping:
  assumes "reference_endpoint config = Some reference_url" and "hosts config = Some hs"
    and "\<forall>h\<in>set hs. h ''rpc_url'' \<noteq> None \<and> h ''host'' \<noteq> None"
    and "\<forall>c url. slot_or_absorbed (ref c (POST url))"
    and "\<forall>c i url. slot_or_absorbed (net c i (POST url))"
  shows "fst (exporter_main fuel py config due ref net s) = Looping \<and>
     probed (requests (snd (exporter_main fuel py config due ref net s))) =
       probed (requests s) @
       concat (map (\<lambda>c. if due c then cycle_probes (ref c) reference_url hs else []) [0..<fuel])"
proof -
  have "\<And>c s. \<exists>s'. schedule_run_pending (due c) (exporter_job py config (ref c) (net c)) s = (Return (), s') \<and>
      (probed \<circ> requests) s' = (probed \<circ> requests) s @
        (\<lambda>c. if due c then cycle_probes (ref c) reference_url hs else []) c"
  proof -
    fix c and s :: exporter
    show "\<exists>s'. schedule_run_pending (due c) (exporter_job py config (ref c) (net c)) s = (Return (), s') \<and>
      (probed \<circ> requests) s' = (probed \<circ> requests) s @
        (\<lambda>c. if due c then cycle_probes (ref c) reference_url hs else []) c"
    proof (cases "due c")
      case True
      from assms(4,5) have "slot_or_absorbed (ref c (POST reference_url))"
        "\<forall>i url. slot_or_absorbed (net c i (POST url))" by simp_all
      from check_node_slots_Returns [of config reference_url hs "ref c" "net c" py s]
        assms(1,2,3) this True show ?thesis
        by (simp add: schedule_run_pending_def exporter_job_def)
    next
      case False
      then show ?thesis
        by (simp add: schedule_run_pending_def py_return_def)
    qed
  qed
  from forever_Looping [of "\<lambda>c. schedule_run_pending (due c) (exporter_job py config (ref c) (net c))"
      "probed \<circ> requests" "\<lambda>c. if due c then cycle_probes (ref c) reference_url hs else []"
      fuel 0 s, OF this]
  show ?thesis
    by (simp add: exporter_main_def)
qed

text \<open>
  C7, as stated, does not hold. After a first cycle in which every host is healthy, the
  heartbeat loop is left in its first iteration by AttributeError on a 200 response whose
  body is a JSON array, by \<^verbatim>\<open>RecursionError\<close> on a body nested too deeply (both after the
  probe of the first host and before the second host is probed), and by urllib3's
  \<^verbatim>\<open>LocationParseError\<close> raised by a heartbeat GET. In the exporter, after a first cycle with
  slots, a \<^verbatim>\<open>result\<close> that is a JSON array makes \<^verbatim>\<open>Gauge.set\<close> raise TypeError and a
  \<^verbatim>\<open>result\<close> of \<open>2 * 10 ^ 308\<close> makes it raise OverflowError in the second cycle; both
  leave the loop through \<^verbatim>\<open>except Exception\<close>.
\<close>

theorem scheduler_loop_counterexample:
  "heartbeat_main 1 (heartbeat_config [host_a, host_b])
     (after_first (answering health_ok) (answering array_body)) idle =
     (Stopped AttributeError,
      \<lparr>requests = [POST ''http://a:8899'', GET ''http://beat/a'',
                    POST ''http://b:8899'', GET ''http://beat/b'', POST ''http://a:8899'']\<rparr>)
   \<and> heartbeat_main 1 (heartbeat_config [host_a, host_b])
     (after_first (answering health_ok) (answering deep_body)) idle =
     (Stopped (Other ''RecursionError''),
      \<lparr>requests = [POST ''http://a:8899'', GET ''http://beat/a'',
                    POST ''http://b:8899'', GET ''http://beat/b'', POST ''http://a:8899'']\<rparr>)
   \<and> heartbeat_main 1 (heartbeat_config [host_a, host_b])
     (after_first (answering health_ok) beat_fails) idle =
     (Stopped (Other ''LocationParseError''),
      \<lparr>requests = [POST ''http://a:8899'', GET ''http://beat/a'',
                    POST ''http://b:8899'', GET ''http://beat/b'',
                    POST ''http://a:8899'', GET ''http://beat/a'']\<rparr>)
   \<and> fst (exporter_main 2 integer_slots (exporter_config [host_a, host_b]) every_iteration (reference_at 1000)
        (after_first (answering (slot_reply (PInt 998))) (answering (slot_reply (PList [])))) fresh)
     = Stopped TypeError
   \<and> fst (exporter_main 2 integer_slots (exporter_config [host_a, host_b]) every_iteration (reference_at 1000)
        (after_first (answering (slot_reply (PInt 998)))
           (answering (slot_reply (PInt (2 * 10 ^ 308))))) fresh)
     = Stopped OverflowError"
proof -
  have over: "float_of_int (2 * 10 ^ 308) = Raise OverflowError"
    by (simp add: float_of_int_overflow)
  have a: "heartbeat_main 1 (heartbeat_config [host_a, host_b])
     (after_first (answering health_ok) (answering array_body)) idle =
     (Stopped AttributeError,
      \<lparr>requests = [POST ''http://a:8899'', GET ''http://beat/a'',
                    POST ''http://b:8899'', GET ''http://beat/b'', POST ''http://a:8899'']\<rparr>)"
    by (simp add: heartbeat_main_def job_def job_body_def check_rpc_call_def send_heartbeat_def requests_get_def prog_defs idle_def answering_def after_first_def host_a_def
        host_b_def health_ok_def rpc_reply_def array_body_def heartbeat_config_def)
  have b: "heartbeat_main 1 (heartbeat_config [host_a, host_b])
     (after_first (answering health_ok) (answering deep_body)) idle =
     (Stopped (Other ''RecursionError''),
      \<lparr>requests = [POST ''http://a:8899'', GET ''http://beat/a'',
                    POST ''http://b:8899'', GET ''http://beat/b'', POST ''http://a:8899'']\<rparr>)"
    by (simp add: heartbeat_main_def job_def job_body_def check_rpc_call_def send_heartbeat_def requests_get_def prog_defs idle_def answering_def after_first_def host_a_def
        host_b_def health_ok_def rpc_reply_def deep_body_def heartbeat_config_def)
  have c: "heartbeat_main 1 (heartbeat_config [host_a, host_b])
     (after_first (answering health_ok) beat_fails) idle =
     (Stopped (Other ''LocationParseError''),
      \<lparr>requests = [POST ''http://a:8899'', GET ''http://beat/a'',
                    POST ''http://b:8899'', GET ''http://beat/b'',
                    POST ''http://a:8899'', GET ''http://beat/a'']\<rparr>)"
    by (simp add: heartbeat_main_def job_def job_body_def check_rpc_call_def send_heartbeat_def requests_get_def prog_defs idle_def answering_def after_first_def host_a_def
        host_b_def health_ok_def rpc_reply_def beat_fails_def bad_host_def heartbeat_config_def)
  have d: "fst (exporter_main 2 integer_slots (exporter_config [host_a, host_b]) every_iteration (reference_at 1000)
        (after_first (answering (slot_reply (PInt 998))) (answering (slot_reply (PList [])))) fresh)
     = Stopped TypeError"
    by (simp add: exporter_main_def schedule_run_pending_def exporter_job_def check_node_slots_def check_node_def get_slot_number_def py_sub_def prog_defs gauge_defs float_of_int_exact
        answering_def after_first_def host_a_def host_b_def slot_reply_def rpc_reply_def
        reference_at_def every_iteration_def exporter_config_def fresh_def numeral_2_eq_2)
  have e: "fst (exporter_main 2 integer_slots (exporter_config [host_a, host_b]) every_iteration (reference_at 1000)
        (after_first (answering (slot_reply (PInt 998)))
           (answering (slot_reply (PInt (2 * 10 ^ 308))))) fresh)
     = Stopped OverflowError"
    using over
    by (simp add: exporter_main_def schedule_run_pending_def exporter_job_def
        check_node_slots_def check_node_def get_slot_number_def py_sub_def prog_defs gauge_defs
        float_of_int_exact [of 1000] float_of_int_exact [of 998] float_of_int_exact [of 2]
        answering_def after_first_def host_a_def host_b_def slot_reply_def rpc_reply_def
        reference_at_def every_iteration_def exporter_config_def fresh_def numeral_2_eq_2)
  from a b c d e show ?thesis by blast
qed

text \<open>
  C7, amended. Let every host entry have its keys; let every probe of every cycle meet a
  \<^verbatim>\<open>RequestException\<close>, a status from 400 to 599, a body that \<^verbatim>\<open>json()\<close> rejects with a
  \<^verbatim>\<open>RequestException\<close>, or a JSON object (in the exporter: one whose \<^verbatim>\<open>result\<close> is
  missing, null, a boolean, a float or an integer of magnitude below \<open>2 ^ 1022\<close>); and let
  every heartbeat GET meet a \<^verbatim>\<open>RequestException\<close> or a response of any status. Then, in
  both scripts, after any number of iterations the loop is still running and every cycle
  has probed every host (the exporter leaves the hosts out only in the cycles whose
  reference probe gave no value).
\<close>

theorem scheduler_loops_keep_running:
  assumes "hosts hb_config = Some hb_hosts"
    and "\<forall>h\<in>set hb_hosts. h ''rpc_url'' \<noteq> None \<and> h ''host'' \<noteq> None \<and> h ''heartbeat_endpoint'' \<noteq> None"
    and "\<forall>c i url. object_or_absorbed (hb_net c i (POST url))"
    and "\<forall>c i url. get_absorbed (hb_net c i (GET url))"
    and "reference_endpoint config = Some reference_url" and "hosts config = Some hs"
    and "\<forall>h\<in>set hs. h ''rpc_url'' \<noteq> None \<and> h ''host'' \<noteq> None"
    and "\<forall>c url. slot_or_absorbed (ref c (POST url))"
    and "\<forall>c i url. slot_or_absorbed (net c i (POST url))"
  shows "fst (heartbeat_main fuel hb_config hb_net s) = Looping
     \<and> probed (requests (snd (heartbeat_main fuel hb_config hb_net s))) =
         probed (requests s) @ concat (replicate (Suc fuel) (rpc_urls hb_hosts))
     \<and> fst (exporter_main fuel py config due ref net t) = Looping
     \<and> probed (requests (snd (exporter_main fuel py config due ref net t))) =
         probed (requests t) @
         concat (map (\<lambda>c. if due c then cycle_probes (ref c) reference_url hs else []) [0..<fuel])"
  using heartbeat_main_Looping [of hb_config hb_hosts hb_net fuel s] assms(1,2,3,4)
    exporter_main_Looping [of config reference_url hs ref net fuel py due t] assms(5,6,7,8,9)
  by simp

text \<open>
  A network on which the first host refuses the connection and the second goes from a 503
  to the slot 7 and to the slot 7.5, for three iterations.
\<close>

theorem scheduler_loops_keep_running_witness:
  "fst (heartbeat_main 3 (heartbeat_config [host_a, host_b]) flaky idle) = Looping
   \<and> probed (requests (snd (heartbeat_main 3 (heartbeat_config [host_a, host_b]) flaky idle))) =
       [''http://a:8899'', ''http://b:8899'', ''http://a:8899'', ''http://b:8899'',
        ''http://a:8899'', ''http://b:8899'', ''http://a:8899'', ''http://b:8899'']
   \<and> fst (exporter_main 3 integer_slots (exporter_config [host_a, host_b]) every_iteration
        (reference_at 1000) flaky fresh) = Looping
   \<and> probed (requests (snd (exporter_main 3 integer_slots (exporter_config [host_a, host_b]) every_iteration
        (reference_at 1000) flaky fresh))) =
       [''http://ref:8899'', ''http://a:8899'', ''http://b:8899'',
        ''http://ref:8899'', ''http://a:8899'', ''http://b:8899'',
        ''http://ref:8899'', ''http://a:8899'', ''http://b:8899'']"
proof -
  have hb_cfg: "hosts (heartbeat_config [host_a, host_b]) = Some [host_a, host_b]"
    by (simp add: heartbeat_config_def)
  have hb_keys: "\<forall>h\<in>set [host_a, host_b].
      h ''rpc_url'' \<noteq> None \<and> h ''host'' \<noteq> None \<and> h ''heartbeat_endpoint'' \<noteq> None"
    by (simp add: host_a_def host_b_def)
  have hb: "\<forall>c i url. object_or_absorbed (flaky c i (POST url))"
    by (simp add: flaky_def answering_def refused_def server_error_def slot_reply_def
        rpc_reply_def object_or_absorbed_def is_dict_def raise_for_status_def)
  have beat: "\<forall>c i url. get_absorbed (flaky c i (GET url))"
    by (simp add: flaky_def answering_def refused_def server_error_def slot_reply_def
        rpc_reply_def get_absorbed_def)
  have cfg: "reference_endpoint (exporter_config [host_a, host_b]) = Some ''http://ref:8899''"
    "hosts (exporter_config [host_a, host_b]) = Some [host_a, host_b]"
    by (simp_all add: exporter_config_def)
  have keys: "\<forall>h\<in>set [host_a, host_b]. h ''rpc_url'' \<noteq> None \<and> h ''host'' \<noteq> None"
    by (simp add: host_a_def host_b_def)
  have ex_ref: "\<forall>c url. slot_or_absorbed (reference_at 1000 c (POST url))"
    by (simp add: reference_at_def answering_def slot_reply_def rpc_reply_def
        slot_or_absorbed_def is_dict_def is_slot_def raise_for_status_def)
  have ex: "\<forall>c i url. slot_or_absorbed (flaky c i (POST url))"
    by (simp add: flaky_def answering_def refused_def server_error_def slot_reply_def
        rpc_reply_def slot_or_absorbed_def is_dict_def is_slot_def raise_for_status_def)
  have urls: "rpc_urls [host_a, host_b] = [''http://a:8899'', ''http://b:8899'']"
    by (simp add: rpc_urls_def host_a_def host_b_def)
  have probes: "cycle_probes (reference_at 1000 c) ''http://ref:8899'' [host_a, host_b] =
      [''http://ref:8899'', ''http://a:8899'', ''http://b:8899'']" for c
    by (simp add: cycle_probes_def urls reference_at_def answering_def slot_reply_def
        rpc_reply_def get_slot_number_def prog_defs idle_def)
  from scheduler_loops_keep_running [OF hb_cfg hb_keys hb beat cfg keys ex_ref ex,
      of 3 idle integer_slots every_iteration fresh]
  show ?thesis
    by (simp add: urls probes idle_def fresh_def every_iteration_def numeral_3_eq_3)
qed

end
